theory Spec2Isabelle
  imports Main
begin

section \<open>Exceptions, effects and the state of a Scraper\<close>

text \<open>
  The module \<^verbatim>\<open>scraper.py\<close> is embedded with explicit state passing. A Python function
  that may raise returns a sum: \<open>Inl e\<close> is the exception \<open>e\<close>, \<open>Inr v\<close> the returned
  value. Console output (\<^verbatim>\<open>print\<close>) is not modelled, except where evaluating the printed
  expression can raise.
\<close>

text \<open>
  The exception classes the module raises or catches. All of them derive from
  \<^verbatim>\<open>Exception\<close>; \<open>TimeoutException\<close> is selenium's subclass of \<open>WebDriverException\<close>;
  \<open>PyException\<close> is a plain \<^verbatim>\<open>Exception(msg)\<close>; \<open>OtherError\<close> stands for any other
  subclass of \<^verbatim>\<open>Exception\<close> a collaborator may raise.
\<close>

datatype exn =
    PyException string
  | WebDriverException string
  | TimeoutException
  | RequestException
  | FileNotFoundError
  | OSError string
  | ValueError string
  | IndexError
  | ZeroDivisionError
  | AttributeError
  | OtherError string

fun is_WebDriverException :: "exn \<Rightarrow> bool" where
  "is_WebDriverException (WebDriverException m) = True"
| "is_WebDriverException TimeoutException = True"
| "is_WebDriverException e = False"

fun is_RequestException :: "exn \<Rightarrow> bool" where
  "is_RequestException RequestException = True"
| "is_RequestException e = False"

text \<open>A cookie is a Python dict from attribute names to plain values.\<close>

datatype cval = CStr string | CBool bool | CInt int

type_synonym cookie = "string \<rightharpoonup> cval"

text \<open>The seleniumwire options: \<open>None\<close> is the empty dict, otherwise the \<^verbatim>\<open>"proxy"\<close> entry.\<close>

record proxy_cfg =
  http :: string
  https :: string

datatype exp_val = EBool bool | EList "string list"

record chrome_options =
  arguments :: "string list"
  experimental :: "(string \<times> exp_val) list"

text \<open>A browser session as the module sees it: how it was launched and where it is.\<close>

record driver =
  drv_id :: nat
  drv_options :: chrome_options
  drv_wire :: "proxy_cfg option"
  drv_url :: string

text \<open>
  The file system: the directories that exist and the files with their contents. A file
  holds \<open>Some cs\<close> when its bytes are the pickle of the cookie list \<open>cs\<close>, and \<open>None\<close>
  when they do not unpickle to one (an empty or foreign file). The working directory
  (the empty path) and the root always exist.
\<close>

record filesystem =
  dirs :: "string set"
  files :: "string \<rightharpoonup> cookie list option"

text \<open>The effects on the outside world, in the order they happen.\<close>

datatype event =
    Sleep int
  | HttpGet string
  | Quit nat
  | Launch nat
  | Navigate nat string
  | FindElement nat
  | GetCookies nat
  | AddCookie nat cookie
  | Refresh nat

text \<open>
  The attributes of a \<^verbatim>\<open>Scraper\<close> object, and with them the world it acts on:
  \<open>tick\<close> counts the calls made to collaborators so far, \<open>trace\<close> records them.
  \<open>current_driver\<close> is \<open>None\<close> while the attribute does not exist
  (\<^verbatim>\<open>hasattr\<close> is false), \<open>Some None\<close> when it holds Python's \<^verbatim>\<open>None\<close>.
  \<open>real_ip\<close> and \<open>current_proxy_ip\<close> are \<open>None\<close> for Python's \<^verbatim>\<open>None\<close>.
\<close>

record scraper =
  proxy_list :: "string list"
  num_proxies :: int
  proxy_rotation_threshold :: int
  cookies_path :: string
  real_ip :: "string option"
  current_proxy_index :: int
  retries :: int
  num_calls :: int
  headless :: bool
  current_driver :: "driver option option"
  current_proxy_ip :: "string option"
  tick :: nat
  trace :: "event list"
  fs :: filesystem

text \<open>
  The collaborators (the network, the browser and its driver) answer each call with a
  value or an exception. What they answer is not decided by the module, so it is a
  parameter: each answer is a function of the number of calls made before it.
\<close>

record env =
  requests_get :: "nat \<Rightarrow> exn + string"
  driver_quit :: "nat \<Rightarrow> exn option"
  chrome_launch :: "nat \<Rightarrow> exn option"
  driver_get :: "nat \<Rightarrow> string \<Rightarrow> exn + string"
  find_element_text :: "nat \<Rightarrow> exn + string"
  get_cookies :: "nat \<Rightarrow> exn + cookie list"
  add_cookie :: "nat \<Rightarrow> cookie \<Rightarrow> exn option"
  refresh :: "nat \<Rightarrow> exn + string"

definition log :: "event \<Rightarrow> scraper \<Rightarrow> scraper" where
  "log ev s = s\<lparr>tick := tick s + 1, trace := trace s @ [ev]\<rparr>"

section \<open>The retry decorator\<close>

text \<open>
  \<^verbatim>\<open>time.sleep(delay)\<close> raises \<open>ValueError\<close> for a negative delay, before any waiting.
\<close>

definition time_sleep :: "int \<Rightarrow> scraper \<Rightarrow> exn option \<times> scraper" where
  "time_sleep delay s =
     (if delay < 0 then (Some (ValueError ''sleep length must be non-negative''), s)
      else (None, s\<lparr>trace := trace s @ [Sleep delay]\<rparr>))"

text \<open>
  The loop of \<^verbatim>\<open>wrapper\<close> (lines 21 to 29), from a given value of \<open>attempts\<close>. The
  result is \<open>Inr (Some v)\<close> when \<open>func\<close> returned \<open>v\<close>, \<open>Inl e\<close> when the wrapper raised
  \<open>e\<close>, and \<open>Inr None\<close> when the loop condition was false and the wrapper fell off its
  end, returning Python's \<^verbatim>\<open>None\<close>.
\<close>

function retry_loop ::
  "int \<Rightarrow> int \<Rightarrow> (scraper \<Rightarrow> (exn + 'a) \<times> scraper) \<Rightarrow> int \<Rightarrow> scraper
     \<Rightarrow> (exn + 'a option) \<times> scraper" where
  "retry_loop max_attempts delay func attempts s =
     (if attempts < max_attempts then
        (case func s of
           (Inr v, s1) \<Rightarrow> (Inr (Some v), s1)
         | (Inl e, s1) \<Rightarrow>
             (if attempts + 1 = max_attempts then (Inl e, s1)
              else (case time_sleep delay s1 of
                      (Some e2, s2) \<Rightarrow> (Inl e2, s2)
                    | (None, s2) \<Rightarrow> retry_loop max_attempts delay func (attempts + 1) s2)))
      else (Inr None, s))"
  by pat_completeness auto
termination
  by (relation "measure (\<lambda>(m, d, f, a, s). nat (m - a))") auto

definition retry ::
  "int \<Rightarrow> int \<Rightarrow> (scraper \<Rightarrow> (exn + 'a) \<times> scraper) \<Rightarrow> scraper
     \<Rightarrow> (exn + 'a option) \<times> scraper" where
  "retry max_attempts delay func s = retry_loop max_attempts delay func 0 s"

text \<open>The delays slept so far, in order.\<close>

fun sleeps :: "event list \<Rightarrow> int list" where
  "sleeps [] = []"
| "sleeps (Sleep d # evs) = d # sleeps evs"
| "sleeps (ev # evs) = sleeps evs"

section \<open>Python's lists and strings\<close>

text \<open>
  The subscript \<^verbatim>\<open>xs[i]\<close> of a list: positions \<open>0\<close> to \<open>len - 1\<close> from the front,
  \<open>- 1\<close> down to \<open>- len\<close> from the back, and \<open>IndexError\<close> for every other \<open>i\<close>.
\<close>

definition py_index :: "'a list \<Rightarrow> int \<Rightarrow> exn + 'a" where
  "py_index xs i =
     (if 0 \<le> i \<and> i < int (length xs) then Inr (xs ! nat i)
      else if i < 0 \<and> - int (length xs) \<le> i then Inr (xs ! nat (int (length xs) + i))
      else Inl IndexError)"

text \<open>\<^verbatim>\<open>s.split(c)\<close> for a one-character separator: never empty, \<^verbatim>\<open>"".split(":") == [""]\<close>.\<close>

fun split_on :: "char \<Rightarrow> string \<Rightarrow> string list" where
  "split_on c [] = [[]]"
| "split_on c (x # xs) =
     (if x = c then [] # split_on c xs
      else (case split_on c xs of
              [] \<Rightarrow> [[x]]
            | w # ws \<Rightarrow> (x # w) # ws))"

fun starts_with :: "string \<Rightarrow> string \<Rightarrow> bool" where
  "starts_with [] s = True"
| "starts_with (p # ps) [] = False"
| "starts_with (p # ps) (c # cs) = (p = c \<and> starts_with ps cs)"

text \<open>\<^verbatim>\<open>sub in s\<close> on strings.\<close>

fun str_in :: "string \<Rightarrow> string \<Rightarrow> bool" where
  "str_in sub [] = (sub = [])"
| "str_in sub (c # cs) = (starts_with sub (c # cs) \<or> str_in sub cs)"

text \<open>
  \<^verbatim>\<open>s.strip()\<close>. A character stands for the code point of its number; the code points
  below 256 that Python takes for whitespace are 9 to 13, 28 to 32, 133 and 160.
\<close>

definition is_space :: "char \<Rightarrow> bool" where
  "is_space c =
     (let n = (of_char c :: nat)
      in (9 \<le> n \<and> n \<le> 13) \<or> (28 \<le> n \<and> n \<le> 32) \<or> n = 133 \<or> n = 160)"

definition py_strip :: "string \<Rightarrow> string" where
  "py_strip s = rev (dropWhile is_space (rev (dropWhile is_space s)))"

section \<open>Calls to the collaborators\<close>

definition ext_requests_get :: "env \<Rightarrow> string \<Rightarrow> scraper \<Rightarrow> (exn + string) \<times> scraper" where
  "ext_requests_get env url s = (requests_get env (tick s), log (HttpGet url) s)"

definition ext_quit :: "env \<Rightarrow> driver \<Rightarrow> scraper \<Rightarrow> exn option \<times> scraper" where
  "ext_quit env d s = (driver_quit env (tick s), log (Quit (drv_id d)) s)"

text \<open>
  Lines 98 to 114: installing the driver binary, starting Chrome with the options and
  applying the stealth patches. Any of them may raise; otherwise there is a new session,
  on Chrome's start page.
\<close>

definition ext_launch ::
  "env \<Rightarrow> chrome_options \<Rightarrow> proxy_cfg option \<Rightarrow> scraper \<Rightarrow> (exn + driver) \<times> scraper" where
  "ext_launch env opts wire s =
     ((case chrome_launch env (tick s) of
         Some e \<Rightarrow> Inl e
       | None \<Rightarrow> Inr \<lparr>drv_id = tick s, drv_options = opts, drv_wire = wire, drv_url = ''data:,''\<rparr>),
      log (Launch (tick s)) s)"

text \<open>\<^verbatim>\<open>driver.get(url)\<close>: raises, or lands on some URL.\<close>

definition ext_get :: "env \<Rightarrow> driver \<Rightarrow> string \<Rightarrow> scraper \<Rightarrow> (exn + driver) \<times> scraper" where
  "ext_get env d url s =
     ((case driver_get env (tick s) url of
         Inl e \<Rightarrow> Inl e
       | Inr landed \<Rightarrow> Inr (d\<lparr>drv_url := landed\<rparr>)),
      log (Navigate (drv_id d) url) s)"

definition ext_find_text :: "env \<Rightarrow> driver \<Rightarrow> scraper \<Rightarrow> (exn + string) \<times> scraper" where
  "ext_find_text env d s = (find_element_text env (tick s), log (FindElement (drv_id d)) s)"

definition ext_get_cookies :: "env \<Rightarrow> driver \<Rightarrow> scraper \<Rightarrow> (exn + cookie list) \<times> scraper" where
  "ext_get_cookies env d s = (get_cookies env (tick s), log (GetCookies (drv_id d)) s)"

definition ext_add_cookie :: "env \<Rightarrow> driver \<Rightarrow> cookie \<Rightarrow> scraper \<Rightarrow> exn option \<times> scraper" where
  "ext_add_cookie env d c s = (add_cookie env (tick s) c, log (AddCookie (drv_id d) c) s)"

definition ext_refresh :: "env \<Rightarrow> driver \<Rightarrow> scraper \<Rightarrow> (exn + driver) \<times> scraper" where
  "ext_refresh env d s =
     ((case refresh env (tick s) of
         Inl e \<Rightarrow> Inl e
       | Inr landed \<Rightarrow> Inr (d\<lparr>drv_url := landed\<rparr>)),
      log (Refresh (drv_id d)) s)"

section \<open>The real IP\<close>

text \<open>
  The body of \<^verbatim>\<open>_get_real_ip\<close> (lines 57 to 63): the \<^verbatim>\<open>except\<close> clause turns a
  \<open>RequestException\<close> into the returned string \<^verbatim>\<open>"Unknown"\<close>; any other exception leaves
  the body.
\<close>

definition get_real_ip_body :: "env \<Rightarrow> scraper \<Rightarrow> (exn + string) \<times> scraper" where
  "get_real_ip_body env s =
     (case ext_requests_get env ''http://api64.ipify.org'' s of
        (Inr text, s1) \<Rightarrow> (Inr (py_strip text), s1)
      | (Inl e, s1) \<Rightarrow>
          (if is_RequestException e then (Inr ''Unknown'', s1) else (Inl e, s1)))"

definition get_real_ip :: "env \<Rightarrow> scraper \<Rightarrow> (exn + string option) \<times> scraper" where
  "get_real_ip env s = retry 3 1 (get_real_ip_body env) s"

section \<open>Proxies\<close>

definition create_chrome_options :: "bool \<Rightarrow> chrome_options" where
  "create_chrome_options hl =
     \<lparr>arguments =
        [''--blink-settings=imagesEnabled=false'',
         ''--window-size=1920,1080'',
         ''--disable-blink-features=AutomationControlled'',
         ''user-agent=Mozilla/5.0 (X11; Linux x86_64) AppleWebKit/537.36 (KHTML, like Gecko) Chrome/102.0.5005.61 Safari/537.36'',
         ''start-maximized'',
         ''--no-sandbox'',
         ''--disable-dev-shm-usage'',
         ''--disable-browser-side-navigation'',
         ''--disable-gpu'']
        @ (if hl then [''--headless''] else []),
      experimental =
        [(''useAutomationExtension'', EBool False),
         (''excludeSwitches'', EList [''enable-logging'', ''enable-automation''])]\<rparr>"

text \<open>
  Lines 125 and 126: the proxy under the cursor is read, then the cursor advances. An
  empty list raises at the read; \<^verbatim>\<open>%\<close> raises on a zero divisor and otherwise is the
  floored remainder, which is \<open>mod\<close> on \<open>int\<close>.
\<close>

definition select_proxy :: "scraper \<Rightarrow> (exn + string) \<times> scraper" where
  "select_proxy s =
     (case py_index (proxy_list s) (current_proxy_index s) of
        Inl e \<Rightarrow> (Inl e, s)
      | Inr proxy \<Rightarrow>
          (if num_proxies s = 0 then (Inl ZeroDivisionError, s)
           else (Inr proxy,
                 s\<lparr>current_proxy_index := (current_proxy_index s + 1) mod num_proxies s\<rparr>)))"

definition invalid_proxy_message :: "string \<Rightarrow> string" where
  "invalid_proxy_message proxy =
     ''Invalid Proxy ['' @ [CHR 0x27] @ proxy @ [CHR 0x27] @ ''] encountered in the proxy list.''"

text \<open>
  Lines 128 to 153, on the selected proxy. The \<^verbatim>\<open>print\<close> of line 129 reads
  \<^verbatim>\<open>splitted_proxy[0]\<close> and \<^verbatim>\<open>splitted_proxy[1]\<close> before the number of fields is
  looked at. The result is the seleniumwire options and the Chrome options with the
  \<^verbatim>\<open>--proxy-server\<close> argument added.
\<close>

definition parse_proxy :: "string \<Rightarrow> chrome_options \<Rightarrow> exn + (proxy_cfg option \<times> chrome_options)" where
  "parse_proxy proxy opts =
     (let splitted_proxy = split_on CHR '':'' proxy in
      case py_index splitted_proxy 0 of
        Inl e \<Rightarrow> Inl e
      | Inr f0 \<Rightarrow>
     (case py_index splitted_proxy 1 of
        Inl e \<Rightarrow> Inl e
      | Inr f1 \<Rightarrow>
          (let wire_plain = \<lparr>http = ''http://'' @ proxy, https = ''https://'' @ proxy\<rparr>;
               opts2 = opts\<lparr>arguments := arguments opts @ [''--proxy-server='' @ f0 @ '':'' @ f1]\<rparr>
           in if length splitted_proxy = 4 then
                (let f2 = splitted_proxy ! 2; f3 = splitted_proxy ! 3
                 in Inr (Some \<lparr>http = ''http://'' @ f2 @ '':'' @ f3 @ ''@'' @ f0 @ '':'' @ f1,
                               https = ''https://'' @ f2 @ '':'' @ f3 @ ''@'' @ f0 @ '':'' @ f1\<rparr>,
                         opts2))
              else if length splitted_proxy \<noteq> 2 then
                Inl (ValueError (invalid_proxy_message proxy))
              else Inr (Some wire_plain, opts2))))"

definition configure_proxy ::
  "chrome_options \<Rightarrow> scraper \<Rightarrow> (exn + (proxy_cfg option \<times> chrome_options)) \<times> scraper" where
  "configure_proxy opts s =
     (case select_proxy s of
        (Inl e, s1) \<Rightarrow> (Inl e, s1)
      | (Inr proxy, s1) \<Rightarrow> (parse_proxy proxy opts, s1))"

text \<open>
  \<^verbatim>\<open>_check_proxy_ip\<close>, lines 156 to 163: the address the proxy shows, or the real one
  when anything in the \<^verbatim>\<open>try\<close> block raises.
\<close>

definition observe_proxy_ip :: "env \<Rightarrow> driver \<Rightarrow> scraper \<Rightarrow> driver \<times> scraper" where
  "observe_proxy_ip env d s =
     (case ext_get env d ''http://api64.ipify.org'' s of
        (Inl e, s1) \<Rightarrow> (d, s1\<lparr>current_proxy_ip := real_ip s1\<rparr>)
      | (Inr d1, s1) \<Rightarrow>
          (case ext_find_text env d1 s1 of
             (Inl e, s2) \<Rightarrow> (d1, s2\<lparr>current_proxy_ip := real_ip s2\<rparr>)
           | (Inr text, s2) \<Rightarrow> (d1, s2\<lparr>current_proxy_ip := Some (py_strip text)\<rparr>)))"

text \<open>\<^verbatim>\<open>_check_proxy_ip\<close>, whole: lines 165 to 171 after the observation.\<close>

definition check_proxy_ip :: "env \<Rightarrow> driver \<Rightarrow> scraper \<Rightarrow> (exn + driver) \<times> scraper" where
  "check_proxy_ip env d s =
     (case observe_proxy_ip env d s of
        (d1, s1) \<Rightarrow>
          (if current_proxy_ip s1 = real_ip s1 then
             (let s2 = s1\<lparr>retries := retries s1 + 1\<rparr>
              in if retries s2 \<le> num_proxies s2
                 then (Inl (WebDriverException ''IP leak detected''), s2)
                 else (Inl (PyException ''All proxies are down''), s2))
           else (Inr d1, s1)))"

section \<open>Sessions\<close>

text \<open>Lines 88 and 89 of \<^verbatim>\<open>get_driver\<close>.\<close>

definition quit_current :: "env \<Rightarrow> scraper \<Rightarrow> exn option \<times> scraper" where
  "quit_current env s =
     (case current_driver s of
        None \<Rightarrow> (None, s)
      | Some None \<Rightarrow> (Some AttributeError, s)
      | Some (Some d) \<Rightarrow> ext_quit env d s)"

definition get_driver_body :: "env \<Rightarrow> scraper \<Rightarrow> (exn + driver) \<times> scraper" where
  "get_driver_body env s =
     (case quit_current env s of
        (Some e, s1) \<Rightarrow> (Inl e, s1)
      | (None, s1) \<Rightarrow>
          (case (if num_proxies s1 > 0
                 then configure_proxy (create_chrome_options (headless s1)) s1
                 else (Inr (None, create_chrome_options (headless s1)), s1)) of
             (Inl e, s2) \<Rightarrow> (Inl e, s2)
           | (Inr (wire_options, opts), s2) \<Rightarrow>
               (case ext_launch env opts wire_options s2 of
                  (Inl e, s3) \<Rightarrow> (Inl e, s3)
                | (Inr d, s3) \<Rightarrow>
                    (if num_proxies s3 > 0 then check_proxy_ip env d s3
                     else (Inr d, s3)))))"

definition get_driver :: "env \<Rightarrow> scraper \<Rightarrow> (exn + driver option) \<times> scraper" where
  "get_driver env s = retry 3 1 (get_driver_body env) s"

text \<open>\<^verbatim>\<open>self.current_driver = self.get_driver()\<close>.\<close>

definition replace_driver :: "env \<Rightarrow> scraper \<Rightarrow> exn option \<times> scraper" where
  "replace_driver env s =
     (case get_driver env s of
        (Inl e, s1) \<Rightarrow> (Some e, s1)
      | (Inr r, s1) \<Rightarrow> (None, s1\<lparr>current_driver := Some r\<rparr>))"

section \<open>The cookie file\<close>

text \<open>
  \<^verbatim>\<open>os.path.dirname\<close> of \<^verbatim>\<open>posixpath\<close>: everything up to the last slash, with trailing
  slashes removed unless it consists of slashes only. A path without a slash has the empty
  directory name.
\<close>

definition os_path_dirname :: "string \<Rightarrow> string" where
  "os_path_dirname p =
     (let head = rev (dropWhile (\<lambda>c. c \<noteq> CHR ''/'') (rev p))
      in if head \<noteq> [] \<and> \<not> list_all (\<lambda>c. c = CHR ''/'') head
         then rev (dropWhile (\<lambda>c. c = CHR ''/'') (rev head))
         else head)"

text \<open>
  The library calls on the file system are modelled by their documented behaviour on
  POSIX, on paths taken as they are written. The empty path names no directory that could
  be created: \<^verbatim>\<open>os.makedirs("")\<close> raises \<open>FileNotFoundError\<close>, with \<^verbatim>\<open>exist_ok\<close> or without.
\<close>

definition dir_exists :: "string \<Rightarrow> filesystem \<Rightarrow> bool" where
  "dir_exists p fsys = (p = [] \<or> list_all (\<lambda>c. c = CHR ''/'') p \<or> p \<in> dirs fsys)"

definition ancestor_dirs :: "string \<Rightarrow> string list" where
  "ancestor_dirs name =
     map (\<lambda>n. take n name)
       (filter (\<lambda>n. name ! n = CHR ''/'' \<and> name ! (n - 1) \<noteq> CHR ''/'') [1..<length name])"

definition os_makedirs :: "string \<Rightarrow> bool \<Rightarrow> filesystem \<Rightarrow> exn + filesystem" where
  "os_makedirs name exist_ok fsys =
     (if name = [] then Inl FileNotFoundError
      else if list_ex (\<lambda>a. files fsys a \<noteq> None) (ancestor_dirs name)
        then Inl (OSError ''NotADirectoryError'')
      else if files fsys name \<noteq> None then Inl (OSError ''FileExistsError'')
      else if dir_exists name fsys \<and> \<not> exist_ok then Inl (OSError ''FileExistsError'')
      else Inr (fsys\<lparr>dirs := dirs fsys \<union> set (ancestor_dirs name) \<union> {name}\<rparr>))"

text \<open>\<^verbatim>\<open>open(path, "wb")\<close>: the file is created or truncated, in a directory that exists.\<close>

definition open_wb :: "string \<Rightarrow> filesystem \<Rightarrow> exn + filesystem" where
  "open_wb path fsys =
     (if path = [] then Inl FileNotFoundError
      else if last path = CHR ''/'' \<or> path \<in> dirs fsys then Inl (OSError ''IsADirectoryError'')
      else if \<not> dir_exists (os_path_dirname path) fsys then Inl FileNotFoundError
      else Inr (fsys\<lparr>files := (files fsys)(path \<mapsto> None)\<rparr>))"

text \<open>\<^verbatim>\<open>open(path, "rb")\<close> and \<^verbatim>\<open>pickle.load\<close>.\<close>

definition open_rb :: "string \<Rightarrow> filesystem \<Rightarrow> exn + cookie list option" where
  "open_rb path fsys =
     (case files fsys path of
        Some content \<Rightarrow> Inr content
      | None \<Rightarrow>
          (if path \<noteq> [] \<and> path \<in> dirs fsys then Inl (OSError ''IsADirectoryError'')
           else Inl FileNotFoundError))"

definition pickle_load :: "cookie list option \<Rightarrow> exn + cookie list" where
  "pickle_load content =
     (case content of
        None \<Rightarrow> Inl (OtherError ''UnpicklingError'')
      | Some cookies \<Rightarrow> Inr cookies)"

text \<open>
  \<^verbatim>\<open>save_cookies\<close> (lines 199 to 201). The file is opened, and so truncated, before the
  cookies are asked of the session.
\<close>

definition save_cookies :: "env \<Rightarrow> scraper \<Rightarrow> exn option \<times> scraper" where
  "save_cookies env s =
     (case os_makedirs (os_path_dirname (cookies_path s)) True (fs s) of
        Inl e \<Rightarrow> (Some e, s)
      | Inr fs1 \<Rightarrow>
          (case open_wb (cookies_path s) fs1 of
             Inl e \<Rightarrow> (Some e, s\<lparr>fs := fs1\<rparr>)
           | Inr fs2 \<Rightarrow>
               (case current_driver s of
                  Some (Some d) \<Rightarrow>
                    (case ext_get_cookies env d (s\<lparr>fs := fs2\<rparr>) of
                       (Inl e, s1) \<Rightarrow> (Some e, s1)
                     | (Inr cookies, s1) \<Rightarrow>
                         (None, s1\<lparr>fs := (fs s1)\<lparr>files := (files (fs s1))(cookies_path s1 \<mapsto> Some cookies)\<rparr>\<rparr>))
                | _ \<Rightarrow> (Some AttributeError, s\<lparr>fs := fs2\<rparr>))))"

text \<open>Lines 208 and 209: the \<^verbatim>\<open>expiry\<close> entry of a cookie is deleted when there is one.\<close>

definition strip_expiry :: "cookie \<Rightarrow> cookie" where
  "strip_expiry cookie =
     (if cookie ''expiry'' \<noteq> None then cookie(''expiry'' := None) else cookie)"

text \<open>The loop of \<^verbatim>\<open>load_cookies\<close> (lines 207 to 210); it ends at the first exception.\<close>

fun add_cookies :: "env \<Rightarrow> cookie list \<Rightarrow> scraper \<Rightarrow> exn option \<times> scraper" where
  "add_cookies env [] s = (None, s)"
| "add_cookies env (cookie # cookies) s =
     (case current_driver s of
        Some (Some d) \<Rightarrow>
          (case ext_add_cookie env d (strip_expiry cookie) s of
             (Some e, s1) \<Rightarrow> (Some e, s1)
           | (None, s1) \<Rightarrow> add_cookies env cookies s1)
      | _ \<Rightarrow> (Some AttributeError, s))"

definition refresh_current :: "env \<Rightarrow> scraper \<Rightarrow> exn option \<times> scraper" where
  "refresh_current env s =
     (case current_driver s of
        Some (Some d) \<Rightarrow>
          (case ext_refresh env d s of
             (Inl e, s1) \<Rightarrow> (Some e, s1)
           | (Inr d1, s1) \<Rightarrow> (None, s1\<lparr>current_driver := Some (Some d1)\<rparr>))
      | _ \<Rightarrow> (Some AttributeError, s))"

text \<open>The \<^verbatim>\<open>try\<close> block of \<^verbatim>\<open>load_cookies\<close> (lines 205 to 211).\<close>

definition load_cookies_try :: "env \<Rightarrow> scraper \<Rightarrow> exn option \<times> scraper" where
  "load_cookies_try env s =
     (case open_rb (cookies_path s) (fs s) of
        Inl e \<Rightarrow> (Some e, s)
      | Inr content \<Rightarrow>
          (case pickle_load content of
             Inl e \<Rightarrow> (Some e, s)
           | Inr cookies \<Rightarrow>
               (case add_cookies env cookies s of
                  (Some e, s1) \<Rightarrow> (Some e, s1)
                | (None, s1) \<Rightarrow> refresh_current env s1)))"

text \<open>
  \<^verbatim>\<open>load_cookies\<close>: the two handlers (lines 212 to 217) catch every exception of the block
  and only print.
\<close>

definition load_cookies :: "env \<Rightarrow> scraper \<Rightarrow> scraper" where
  "load_cookies env s = snd (load_cookies_try env s)"

section \<open>Navigation\<close>

text \<open>\<^verbatim>\<open>self.current_driver.get(url)\<close>.\<close>

definition navigate_current :: "env \<Rightarrow> string \<Rightarrow> scraper \<Rightarrow> exn option \<times> scraper" where
  "navigate_current env url s =
     (case current_driver s of
        Some (Some d) \<Rightarrow>
          (case ext_get env d url s of
             (Inl e, s1) \<Rightarrow> (Some e, s1)
           | (Inr d1, s1) \<Rightarrow> (None, s1\<lparr>current_driver := Some (Some d1)\<rparr>))
      | _ \<Rightarrow> (Some AttributeError, s))"

text \<open>
  The two patterns of lines 185 and 186: the path of Google's page for unusual traffic
  (spelled here from two pieces) and the path of its reCAPTCHA.
\<close>

definition is_soft_block :: "string \<Rightarrow> bool" where
  "is_soft_block u =
     (str_in (''google.com/sorr'' @ ''y'') u \<or> str_in ''google.com/recaptcha'' u)"

text \<open>The \<^verbatim>\<open>try\<close> block of \<^verbatim>\<open>web_get\<close> (lines 181 to 190).\<close>

definition web_get_block :: "env \<Rightarrow> string \<Rightarrow> scraper \<Rightarrow> (exn + bool) \<times> scraper" where
  "web_get_block env url s =
     (case navigate_current env url s of
        (Some e, s1) \<Rightarrow> (Inl e, s1)
      | (None, s1) \<Rightarrow>
          (let s2 = load_cookies env s1
           in case current_driver s2 of
                Some (Some d) \<Rightarrow>
                  (if is_soft_block (drv_url d)
                   then (Inl (WebDriverException ''Google CAPTCHA encountered''), s2)
                   else (Inr True, s2))
              | _ \<Rightarrow> (Inl AttributeError, s2)))"

text \<open>
  The \<^verbatim>\<open>try\<close> statement of \<^verbatim>\<open>web_get\<close> with its handlers (lines 180 to 196): a
  \<open>TimeoutException\<close> and any other \<open>WebDriverException\<close> raised in the block become the
  returned value \<^verbatim>\<open>False\<close>.
\<close>

definition web_get_try :: "env \<Rightarrow> string \<Rightarrow> scraper \<Rightarrow> (exn + bool) \<times> scraper" where
  "web_get_try env url s =
     (case web_get_block env url s of
        (Inr b, s1) \<Rightarrow> (Inr b, s1)
      | (Inl e, s1) \<Rightarrow>
          (if e = TimeoutException then (Inr False, s1)
           else if is_WebDriverException e then (Inr False, s1)
           else (Inl e, s1)))"

text \<open>
  Lines 175 to 178 of \<^verbatim>\<open>web_get\<close>: the call is counted, and the session is replaced
  when the count is a multiple of the threshold. \<^verbatim>\<open>%\<close> raises on a threshold of 0.
\<close>

definition count_and_rotate :: "env \<Rightarrow> scraper \<Rightarrow> exn option \<times> scraper" where
  "count_and_rotate env s =
     (let s1 = s\<lparr>num_calls := num_calls s + 1\<rparr>
      in if proxy_rotation_threshold s1 = 0 then (Some ZeroDivisionError, s1)
         else if num_calls s1 mod proxy_rotation_threshold s1 = 0 then replace_driver env s1
         else (None, s1))"

text \<open>The body of \<^verbatim>\<open>web_get\<close> (lines 175 to 196), and the decorated method.\<close>

definition web_get_body :: "env \<Rightarrow> string \<Rightarrow> scraper \<Rightarrow> (exn + bool) \<times> scraper" where
  "web_get_body env url s =
     (case count_and_rotate env s of
        (Some e, s1) \<Rightarrow> (Inl e, s1)
      | (None, s1) \<Rightarrow> web_get_try env url s1)"

definition web_get :: "env \<Rightarrow> string \<Rightarrow> scraper \<Rightarrow> (exn + bool option) \<times> scraper" where
  "web_get env url s = retry 3 1 (web_get_body env url) s"

section \<open>Construction and use\<close>

text \<open>
  The attributes as \<^verbatim>\<open>__init__\<close> assigns them before the first session is created
  (lines 44 to 52), given the real IP that line 48 obtained.
\<close>

definition init_attributes ::
  "string list option \<Rightarrow> int \<Rightarrow> string \<Rightarrow> bool \<Rightarrow> string option \<Rightarrow> filesystem \<Rightarrow> scraper" where
  "init_attributes proxies threshold path hl ip fsys =
     \<lparr>proxy_list = (case proxies of None \<Rightarrow> [] | Some l \<Rightarrow> l),
      num_proxies = int (length (case proxies of None \<Rightarrow> [] | Some l \<Rightarrow> l)),
      proxy_rotation_threshold = threshold,
      cookies_path = path,
      real_ip = ip,
      current_proxy_index = 0,
      retries = 0,
      num_calls = 0,
      headless = hl,
      current_driver = None,
      current_proxy_ip = None,
      tick = 0,
      trace = [],
      fs = fsys\<rparr>"

text \<open>
  \<^verbatim>\<open>Scraper.__init__\<close>. \<^verbatim>\<open>_get_real_ip\<close> reads no attribute, so it runs on the attributes
  with the real IP still missing; what it did to the world is kept.
\<close>

definition scraper_init ::
  "env \<Rightarrow> string list option \<Rightarrow> int \<Rightarrow> string \<Rightarrow> bool \<Rightarrow> filesystem \<Rightarrow> exn option \<times> scraper" where
  "scraper_init env proxies threshold path hl fsys =
     (case get_real_ip env (init_attributes proxies threshold path hl None fsys) of
        (Inl e, s1) \<Rightarrow> (Some e, s1)
      | (Inr ip, s1) \<Rightarrow>
          replace_driver env
            ((init_attributes proxies threshold path hl ip fsys)
               \<lparr>tick := tick s1, trace := trace s1\<rparr>))"

text \<open>The methods a user of the object calls, and a run of such calls.\<close>

datatype call =
    CallWebGet string
  | CallGetDriver
  | CallReplaceDriver
  | CallSaveCookies
  | CallLoadCookies
  | CallGetRealIp

fun run_call :: "env \<Rightarrow> call \<Rightarrow> scraper \<Rightarrow> scraper" where
  "run_call env (CallWebGet url) s = snd (web_get env url s)"
| "run_call env CallGetDriver s = snd (get_driver env s)"
| "run_call env CallReplaceDriver s = snd (replace_driver env s)"
| "run_call env CallSaveCookies s = snd (save_cookies env s)"
| "run_call env CallLoadCookies s = load_cookies env s"
| "run_call env CallGetRealIp s = snd (get_real_ip env s)"

fun run_calls :: "env \<Rightarrow> call list \<Rightarrow> scraper \<Rightarrow> scraper" where
  "run_calls env [] s = s"
| "run_calls env (c # cs) s = run_calls env cs (run_call env c s)"

text \<open>Consecutive proxy selections, and consecutive leak checks of a session.\<close>

fun select_n :: "nat \<Rightarrow> scraper \<Rightarrow> (exn + string) list \<times> scraper" where
  "select_n 0 s = ([], s)"
| "select_n (Suc n) s =
     (case select_proxy s of
        (r, s1) \<Rightarrow> (case select_n n s1 of (rs, s2) \<Rightarrow> (r # rs, s2)))"

fun check_n :: "env \<Rightarrow> driver \<Rightarrow> nat \<Rightarrow> scraper \<Rightarrow> (exn + driver) list \<times> scraper" where
  "check_n env d 0 s = ([], s)"
| "check_n env d (Suc n) s =
     (case check_proxy_ip env d s of
        (r, s1) \<Rightarrow> (case check_n env d n s1 of (rs, s2) \<Rightarrow> (r # rs, s2)))"

text \<open>The sessions started and ended, among the effects.\<close>

fun session_events :: "event list \<Rightarrow> event list" where
  "session_events [] = []"
| "session_events (Quit n # evs) = Quit n # session_events evs"
| "session_events (Launch n # evs) = Launch n # session_events evs"
| "session_events (ev # evs) = session_events evs"

text \<open>The cookies handed to the session, among the effects.\<close>

fun added_cookies :: "event list \<Rightarrow> cookie list" where
  "added_cookies [] = []"
| "added_cookies (AddCookie n c # evs) = c # added_cookies evs"
| "added_cookies (ev # evs) = added_cookies evs"

text \<open>
  Between two states of a scraper, the leak counter has not gone down and the size of the
  pool is the same.
\<close>

definition leak_count_kept :: "scraper \<Rightarrow> scraper \<Rightarrow> bool" where
  "leak_count_kept s t = (retries s \<le> retries t \<and> num_proxies t = num_proxies s)"

text \<open>The same, and the call counter and the rotation threshold have not changed either.\<close>

definition attributes_kept :: "scraper \<Rightarrow> scraper \<Rightarrow> bool" where
  "attributes_kept s t =
     (leak_count_kept s t \<and> num_calls t = num_calls s
      \<and> proxy_rotation_threshold t = proxy_rotation_threshold s)"

section \<open>Example objects and worlds\<close>

text \<open>A scraper without proxies, before its first session, on an empty file system.\<close>

definition s_blank :: scraper where
  "s_blank = init_attributes None 6 ''cookies.pkl'' True None \<lparr>dirs = {}, files = Map.empty\<rparr>"

text \<open>
  An operation that raises on its first two calls and returns on the third, and one that
  raises on every call, a timeout on the third.
\<close>

definition flaky :: "scraper \<Rightarrow> (exn + int) \<times> scraper" where
  "flaky s = (if num_calls s < 2 then Inl (OtherError ''boom'') else Inr (num_calls s),
              s\<lparr>num_calls := num_calls s + 1\<rparr>)"

definition failing :: "scraper \<Rightarrow> (exn + int) \<times> scraper" where
  "failing s = (Inl (if num_calls s = 2 then TimeoutException else OtherError ''boom''),
                s\<lparr>num_calls := num_calls s + 1\<rparr>)"

text \<open>A scraper with a pool of three proxies, before its first session.\<close>

definition s_three :: scraper where
  "s_three = init_attributes (Some [''10.0.0.1:8080'', ''10.0.0.2:8080:bob:secret'', ''10.0.0.3:8080''])
               6 ''data/cookies.pkl'' True (Some ''198.51.100.7'') \<lparr>dirs = {}, files = Map.empty\<rparr>"

text \<open>A world in which no page loads, and a session just launched.\<close>

definition env_offline :: env where
  "env_offline =
     \<lparr>requests_get = (\<lambda>t. Inl RequestException),
      driver_quit = (\<lambda>t. None),
      chrome_launch = (\<lambda>t. None),
      driver_get = (\<lambda>t u. Inl (WebDriverException ''net::ERR_PROXY_CONNECTION_FAILED'')),
      find_element_text = (\<lambda>t. Inl (OtherError ''NoSuchElementException'')),
      get_cookies = (\<lambda>t. Inr []),
      add_cookie = (\<lambda>t c. None),
      refresh = (\<lambda>t. Inr ''about:blank'')\<rparr>"

definition d_new :: driver where
  "d_new = \<lparr>drv_id = 0, drv_options = create_chrome_options True, drv_wire = None,
            drv_url = ''data:,''\<rparr>"

text \<open>A world in which every page is answered by the CAPTCHA interstitial.\<close>

definition env_captcha :: env where
  "env_captcha =
     \<lparr>requests_get = (\<lambda>t. Inr ''198.51.100.7''),
      driver_quit = (\<lambda>t. None),
      chrome_launch = (\<lambda>t. None),
      driver_get = (\<lambda>t u. Inr ''https://www.google.com/recaptcha/api2/anchor''),
      find_element_text = (\<lambda>t. Inr ''203.0.113.9''),
      get_cookies = (\<lambda>t. Inr []),
      add_cookie = (\<lambda>t c. None),
      refresh = (\<lambda>t. Inr ''https://www.google.com/recaptcha/api2/anchor'')\<rparr>"

text \<open>A scraper without proxies that holds a session.\<close>

definition s_live :: scraper where
  "s_live = s_blank\<lparr>real_ip := Some ''198.51.100.7'', current_driver := Some (Some d_new)\<rparr>"

text \<open>Two cookies, a world whose session holds them, and a scraper that saves under a directory.\<close>

definition cookie_sid :: cookie where
  "cookie_sid = [''name'' \<mapsto> CStr ''sid'', ''value'' \<mapsto> CStr ''abc'', ''expiry'' \<mapsto> CInt 1893456000]"

definition cookie_lang :: cookie where
  "cookie_lang = [''name'' \<mapsto> CStr ''lang'', ''value'' \<mapsto> CStr ''en'']"

definition env_cookies :: env where
  "env_cookies =
     \<lparr>requests_get = (\<lambda>t. Inr ''198.51.100.7''),
      driver_quit = (\<lambda>t. None),
      chrome_launch = (\<lambda>t. None),
      driver_get = (\<lambda>t u. Inr u),
      find_element_text = (\<lambda>t. Inr ''203.0.113.9''),
      get_cookies = (\<lambda>t. Inr [cookie_sid, cookie_lang]),
      add_cookie = (\<lambda>t c. None),
      refresh = (\<lambda>t. Inr ''https://m.uber.com/looking'')\<rparr>"

definition s_data :: scraper where
  "s_data = s_live\<lparr>cookies_path := ''data/cookies.pkl''\<rparr>"

text \<open>
  A world whose first page load fails with an error that is not selenium's, a scraper with
  a threshold of 2, and the second session of that world once it has loaded the page.
\<close>

definition env_glitch :: env where
  "env_glitch =
     \<lparr>requests_get = (\<lambda>t. Inr ''198.51.100.7''),
      driver_quit = (\<lambda>t. None),
      chrome_launch = (\<lambda>t. None),
      driver_get = (\<lambda>t u. if t = 0 then Inl (OtherError ''ConnectionResetError'') else Inr u),
      find_element_text = (\<lambda>t. Inr ''203.0.113.9''),
      get_cookies = (\<lambda>t. Inr []),
      add_cookie = (\<lambda>t c. None),
      refresh = (\<lambda>t. Inr ''https://m.uber.com/looking'')\<rparr>"

definition s_two :: scraper where
  "s_two = s_live\<lparr>proxy_rotation_threshold := 2\<rparr>"

definition d_two :: driver where
  "d_two = \<lparr>drv_id = 2, drv_options = create_chrome_options True, drv_wire = None,
            drv_url = ''https://m.uber.com/looking''\<rparr>"

section \<open>Properties\<close>

subsection \<open>The retry decorator\<close>

lemma sleeps_append: "sleeps (xs @ ys) = sleeps xs @ sleeps ys"
  by (induction xs rule: sleeps.induct) auto

text \<open>
  Claim C6. With \<open>max_attempts = 3\<close> and an operation that does not sleep by itself: when
  the operation raises on its first and second call, then either its third call returns
  \<open>v\<close> and \<open>retry\<close> returns \<open>v\<close>, or its third call raises \<open>e3\<close> and \<open>retry\<close> raises
  \<open>e3\<close>; in both cases the state is the one the third call left, and the delay was slept
  exactly twice, once after each of the first two failures.
\<close>

theorem retry_three_attempts:
  assumes d: "0 \<le> d"
    and quiet: "\<forall>s. sleeps (trace (snd (func s))) = sleeps (trace s)"
    and a1: "func s0 = (Inl e1, s1)"
    and a2: "func (snd (time_sleep d s1)) = (Inl e2, s2)"
  shows "(func (snd (time_sleep d s2)) = (Inr v, s3) \<longrightarrow>
            retry 3 d func s0 = (Inr (Some v), s3)
            \<and> sleeps (trace s3) = sleeps (trace s0) @ [d, d])
       \<and> (func (snd (time_sleep d s2)) = (Inl e3, s3) \<longrightarrow>
            retry 3 d func s0 = (Inl e3, s3)
            \<and> sleeps (trace s3) = sleeps (trace s0) @ [d, d])"
proof -
  let ?t1 = "s1\<lparr>trace := trace s1 @ [Sleep d]\<rparr>" and ?t2 = "s2\<lparr>trace := trace s2 @ [Sleep d]\<rparr>"
  have t1: "time_sleep d s1 = (None, ?t1)" and t2: "time_sleep d s2 = (None, ?t2)"
    using d by (simp_all add: time_sleep_def)
  have b2: "func ?t1 = (Inl e2, s2)"
    using a2 by (simp add: t1)
  have q1: "sleeps (trace s1) = sleeps (trace s0)"
    using quiet [rule_format, of s0] a1 by simp
  have q2: "sleeps (trace s2) = sleeps (trace s0) @ [d]"
    using quiet [rule_format, of ?t1] b2 q1 by (simp add: sleeps_append)
  have q3: "sleeps (trace (snd (func ?t2))) = sleeps (trace s0) @ [d, d]"
    using quiet [rule_format, of ?t2] q2 by (simp add: sleeps_append)
  have step1: "retry 3 d func s0 = retry_loop 3 d func 1 ?t1"
    unfolding retry_def by (subst retry_loop.simps) (simp add: a1 t1)
  have step2: "retry_loop 3 d func 1 ?t1 = retry_loop 3 d func 2 ?t2"
    by (subst retry_loop.simps) (simp add: b2 t2)
  have ok: "func ?t2 = (Inr v, s3) \<Longrightarrow> retry_loop 3 d func 2 ?t2 = (Inr (Some v), s3)"
    by (subst retry_loop.simps) simp
  have bad: "func ?t2 = (Inl e3, s3) \<Longrightarrow> retry_loop 3 d func 2 ?t2 = (Inl e3, s3)"
    by (subst retry_loop.simps) simp
  have "retry 3 d func s0 = retry_loop 3 d func 2 ?t2"
    using step1 step2 by simp
  then show ?thesis
    using ok bad q3 by (auto simp add: t2)
qed

theorem retry_three_attempts_witness:
  "retry 3 1 flaky s_blank
   = (Inr (Some 2), s_blank\<lparr>num_calls := 3, trace := [Sleep 1, Sleep 1]\<rparr>)
   \<and> retry 3 1 failing s_blank
   = (Inl TimeoutException, s_blank\<lparr>num_calls := 3, trace := [Sleep 1, Sleep 1]\<rparr>)"
  using retry_three_attempts [of 1 flaky s_blank "OtherError ''boom''"
      "s_blank\<lparr>num_calls := 1\<rparr>" "OtherError ''boom''"
      "s_blank\<lparr>num_calls := 2, trace := [Sleep 1]\<rparr>" 2
      "s_blank\<lparr>num_calls := 3, trace := [Sleep 1, Sleep 1]\<rparr>"]
    retry_three_attempts [of 1 failing s_blank "OtherError ''boom''"
      "s_blank\<lparr>num_calls := 1\<rparr>" "OtherError ''boom''"
      "s_blank\<lparr>num_calls := 2, trace := [Sleep 1]\<rparr>" 0
      "s_blank\<lparr>num_calls := 3, trace := [Sleep 1, Sleep 1]\<rparr>" TimeoutException]
  by (simp add: flaky_def failing_def s_blank_def init_attributes_def time_sleep_def)

subsection \<open>Parsing a proxy\<close>

lemma parse_proxy_localhost: "parse_proxy ''localhost'' opts = Inl IndexError"
  by (simp add: parse_proxy_def py_index_def)

lemma parse_proxy_one_field:
  "length (split_on CHR '':'' proxy) = 1 \<Longrightarrow> parse_proxy proxy opts = Inl IndexError"
  by (cases "split_on CHR '':'' proxy") (auto simp add: parse_proxy_def py_index_def Let_def)

lemma parse_proxy_two_fields:
  "split_on CHR '':'' proxy = [h, p] \<Longrightarrow>
   parse_proxy proxy opts =
     Inr (Some \<lparr>http = ''http://'' @ proxy, https = ''https://'' @ proxy\<rparr>,
          opts\<lparr>arguments := arguments opts @ [''--proxy-server='' @ h @ '':'' @ p]\<rparr>)"
  by (simp add: parse_proxy_def py_index_def Let_def)

lemma parse_proxy_four_fields:
  "split_on CHR '':'' proxy = [h, p, u, w] \<Longrightarrow>
   parse_proxy proxy opts =
     Inr (Some \<lparr>http = ''http://'' @ u @ '':'' @ w @ ''@'' @ h @ '':'' @ p,
                https = ''https://'' @ u @ '':'' @ w @ ''@'' @ h @ '':'' @ p\<rparr>,
          opts\<lparr>arguments := arguments opts @ [''--proxy-server='' @ h @ '':'' @ p]\<rparr>)"
  by (simp add: parse_proxy_def py_index_def Let_def)

lemma parse_proxy_other_fields:
  assumes "length (split_on CHR '':'' proxy) \<notin> {1, 2, 4}"
  shows "parse_proxy proxy opts = Inl (ValueError (invalid_proxy_message proxy))"
proof -
  have "split_on CHR '':'' proxy \<noteq> []"
    by (cases proxy) (auto split: list.splits)
  then obtain a b rest where "split_on CHR '':'' proxy = a # b # rest"
    using assms by (cases "split_on CHR '':'' proxy"; cases "tl (split_on CHR '':'' proxy)") auto
  then show ?thesis
    using assms by (simp add: parse_proxy_def py_index_def Let_def)
qed

text \<open>
  Claim C3, at the input where the code departs from it. A proxy string without a colon
  has one field; \<^verbatim>\<open>_configure_proxy\<close> then raises \<open>IndexError\<close> at the \<^verbatim>\<open>print\<close> of
  line 129, and the \<open>ValueError\<close> of line 146 is never reached. (Two and four fields parse
  as claimed and every other number of fields from three on raises the \<open>ValueError\<close>: the
  lemmas above.)
\<close>

theorem configure_proxy_single_field:
  "fst (configure_proxy (create_chrome_options True)
          (init_attributes (Some [''localhost'']) 6 ''cookies.pkl'' True None
             \<lparr>dirs = {}, files = Map.empty\<rparr>))
   = Inl IndexError"
  by (simp add: configure_proxy_def select_proxy_def init_attributes_def py_index_def
      parse_proxy_localhost)

subsection \<open>Saving the cookies\<close>

lemma dirname_bare: "os_path_dirname ''cookies.pkl'' = []"
  by (simp add: os_path_dirname_def)

text \<open>
  Claim C4, at the input where the code departs from it. With the default
  \<^verbatim>\<open>cookies_path\<close>, a bare file name, the directory name is empty, \<^verbatim>\<open>os.makedirs\<close>
  raises \<open>FileNotFoundError\<close> and \<^verbatim>\<open>save_cookies\<close> raises it in turn: nothing is written.
\<close>

theorem save_cookies_bare_filename:
  "save_cookies env (s\<lparr>cookies_path := ''cookies.pkl''\<rparr>)
   = (Some FileNotFoundError, s\<lparr>cookies_path := ''cookies.pkl''\<rparr>)"
  by (simp add: save_cookies_def dirname_bare os_makedirs_def)

subsection \<open>Round-robin selection\<close>

lemma select_proxy_in_range:
  assumes "num_proxies s = int (length (proxy_list s))"
    and "0 \<le> current_proxy_index s" and "current_proxy_index s < num_proxies s"
  shows "select_proxy s =
           (Inr (proxy_list s ! nat (current_proxy_index s)),
            s\<lparr>current_proxy_index := (current_proxy_index s + 1) mod num_proxies s\<rparr>)"
  using assms by (auto simp add: select_proxy_def py_index_def Let_def)

lemma select_n_from:
  assumes "num_proxies s = int (length (proxy_list s))"
    and "0 \<le> current_proxy_index s" and "current_proxy_index s < num_proxies s"
  shows "select_n n s =
           (map (\<lambda>j. Inr (proxy_list s ! ((nat (current_proxy_index s) + j) mod length (proxy_list s))))
              [0..<n],
            s\<lparr>current_proxy_index := (current_proxy_index s + int n) mod num_proxies s\<rparr>)"
  using assms
proof (induction n arbitrary: s)
  case 0
  then show ?case by simp
next
  case (Suc n)
  let ?K = "length (proxy_list s)"
  let ?i = "nat (current_proxy_index s)"
  let ?s1 = "s\<lparr>current_proxy_index := (current_proxy_index s + 1) mod num_proxies s\<rparr>"
  have K: "0 < ?K" and i: "?i < ?K" and ci: "current_proxy_index s = int ?i"
    using Suc.prems by auto
  have sel: "select_proxy s = (Inr (proxy_list s ! ?i), ?s1)"
    using Suc.prems by (rule select_proxy_in_range)
  have idx1: "current_proxy_index ?s1 = int ((?i + 1) mod ?K)"
  proof -
    define i k where ik: "i = ?i" "k = ?K"
    have e: "current_proxy_index s = int i" "num_proxies s = int k"
      using Suc.prems by (simp_all add: ik)
    have "int ((i + 1) mod k) = int (i + 1) mod int k"
      by (rule of_nat_mod)
    then have "int ((i + 1) mod k) = (int i + 1) mod int k"
      by (simp only: of_nat_add of_nat_1)
    then have "int ((i + 1) mod k) = (current_proxy_index s + 1) mod num_proxies s"
      by (simp only: e)
    then show ?thesis by (simp add: ik)
  qed
  have p1: "num_proxies ?s1 = int (length (proxy_list ?s1))"
    using Suc.prems by simp
  have p2: "0 \<le> current_proxy_index ?s1" and p3: "current_proxy_index ?s1 < num_proxies ?s1"
    using Suc.prems K by (simp_all add: idx1)
  have ih: "select_n n ?s1 =
      (map (\<lambda>j. Inr (proxy_list s ! ((nat (current_proxy_index ?s1) + j) mod ?K))) [0..<n],
       ?s1\<lparr>current_proxy_index := (current_proxy_index ?s1 + int n) mod num_proxies ?s1\<rparr>)"
    using Suc.IH [OF p1 p2 p3] by simp
  have shift: "\<And>j. (nat (current_proxy_index ?s1) + j) mod ?K = (?i + Suc j) mod ?K"
    by (simp add: idx1 mod_simps)
  have fin: "(current_proxy_index ?s1 + int n) mod num_proxies ?s1
             = (current_proxy_index s + int (Suc n)) mod num_proxies s"
    by (simp add: mod_simps add.commute add.left_commute)
  have up: "[0..<Suc n] = 0 # map Suc [0..<n]"
    by (simp add: upt_conv_Cons map_Suc_upt del: upt_Suc)
  have first: "?i mod ?K = ?i"
    using i by simp
  show ?case
    by (simp only: select_n.simps sel ih shift fin up prod.case list.map map_map comp_def)
       (simp add: first)
qed

text \<open>
  Claim C7. For a scraper whose pool is not empty and whose cursor is 0: as many
  consecutive selections as there are proxies return the proxies themselves, each once and
  in the order of the pool, and leave the cursor where it was, so that the next selection
  returns the first proxy again; and after any number \<open>n\<close> of selections the cursor is
  \<open>n mod K\<close>, the next selection returns the proxy under it and moves it to the next
  position modulo \<open>K\<close>.
\<close>

theorem round_robin:
  assumes "proxy_list s \<noteq> []"
    and "num_proxies s = int (length (proxy_list s))"
    and "current_proxy_index s = 0"
  shows "select_n (length (proxy_list s)) s = (map Inr (proxy_list s), s)
       \<and> fst (select_proxy (snd (select_n (length (proxy_list s)) s))) = Inr (hd (proxy_list s))
       \<and> (\<forall>n. current_proxy_index (snd (select_n n s)) = int n mod num_proxies s
              \<and> select_proxy (snd (select_n n s))
                = (Inr (proxy_list s ! (n mod length (proxy_list s))),
                   (snd (select_n n s))\<lparr>current_proxy_index :=
                      (current_proxy_index (snd (select_n n s)) + 1) mod num_proxies s\<rparr>))"
proof -
  let ?K = "length (proxy_list s)"
  have pre: "0 \<le> current_proxy_index s" "current_proxy_index s < num_proxies s"
    using assms by auto
  note gen = select_n_from [OF assms(2) pre]
  have all: "select_n ?K s = (map Inr (proxy_list s), s)"
  proof -
    have "map (\<lambda>j. Inr (proxy_list s ! ((nat (current_proxy_index s) + j) mod ?K))) [0..<?K]
          = map (\<lambda>j. Inr (proxy_list s ! j)) [0..<?K]"
      using assms by (intro map_cong) auto
    also have "\<dots> = map Inr (map (\<lambda>j. proxy_list s ! j) [0..<?K])"
      by simp
    also have "\<dots> = map Inr (proxy_list s)"
      by (simp only: map_nth)
    finally have m: "map (\<lambda>j. Inr (proxy_list s ! ((nat (current_proxy_index s) + j) mod ?K))) [0..<?K]
          = map Inr (proxy_list s)" .
    have "s\<lparr>current_proxy_index := (current_proxy_index s + int ?K) mod num_proxies s\<rparr> = s"
      using assms by simp
    then show ?thesis
      using gen [of ?K] m by simp
  qed
  have again: "fst (select_proxy (snd (select_n ?K s))) = Inr (hd (proxy_list s))"
    using assms by (simp add: all select_proxy_in_range hd_conv_nth)
  have each: "current_proxy_index (snd (select_n n s)) = int n mod num_proxies s
              \<and> select_proxy (snd (select_n n s))
                = (Inr (proxy_list s ! (n mod ?K)),
                   (snd (select_n n s))\<lparr>current_proxy_index :=
                      (current_proxy_index (snd (select_n n s)) + 1) mod num_proxies s\<rparr>)" for n
  proof -
    let ?t = "snd (select_n n s)"
    have t: "?t = s\<lparr>current_proxy_index := int n mod num_proxies s\<rparr>"
      using gen [of n] assms by simp
    have K: "0 < int ?K" using assms by simp
    have a: "num_proxies ?t = int (length (proxy_list ?t))"
      using assms by (simp add: t)
    have b: "0 \<le> current_proxy_index ?t" "current_proxy_index ?t < num_proxies ?t"
      using assms K by (simp_all add: t)
    have c: "nat (current_proxy_index ?t) = n mod ?K"
      using assms by (simp add: t nat_mod_distrib flip: zmod_int)
    show ?thesis
      using select_proxy_in_range [OF a b] c by (simp add: t)
  qed
  show ?thesis
    using all again each by blast
qed

theorem round_robin_witness:
  "select_n 3 s_three
   = ([Inr ''10.0.0.1:8080'', Inr ''10.0.0.2:8080:bob:secret'', Inr ''10.0.0.3:8080''], s_three)
   \<and> fst (select_proxy (snd (select_n 3 s_three))) = Inr ''10.0.0.1:8080''"
proof -
  have L: "length (proxy_list s_three) = 3"
    and P: "proxy_list s_three = [''10.0.0.1:8080'', ''10.0.0.2:8080:bob:secret'', ''10.0.0.3:8080'']"
    by (simp_all add: s_three_def init_attributes_def)
  have "proxy_list s_three \<noteq> []"
    and "num_proxies s_three = int (length (proxy_list s_three))"
    and "current_proxy_index s_three = 0"
    by (simp_all add: s_three_def init_attributes_def)
  from round_robin [OF this]
  have A: "select_n (length (proxy_list s_three)) s_three = (map Inr (proxy_list s_three), s_three)"
    and B: "fst (select_proxy (snd (select_n (length (proxy_list s_three)) s_three)))
         = Inr (hd (proxy_list s_three))"
    by blast+
  have "select_n 3 s_three = (map Inr (proxy_list s_three), s_three)"
    using A unfolding L .
  moreover have "fst (select_proxy (snd (select_n 3 s_three))) = Inr (hd (proxy_list s_three))"
    using B unfolding L .
  ultimately show ?thesis
    unfolding P by simp
qed

subsection \<open>Leak detection\<close>

lemma observe_proxy_ip_keeps:
  assumes "observe_proxy_ip env d s = (d1, s1)"
  shows "retries s1 = retries s" and "num_proxies s1 = num_proxies s"
    and "real_ip s1 = real_ip s"
  using assms
  by (auto simp add: observe_proxy_ip_def ext_get_def ext_find_text_def log_def
      split: sum.splits prod.splits)

lemma check_proxy_ip_step:
  assumes "check_proxy_ip env d s = (r, s1)"
  shows "num_proxies s1 = num_proxies s" and "real_ip s1 = real_ip s"
    and "isl r \<longleftrightarrow> current_proxy_ip s1 = real_ip s"
    and "isl r \<Longrightarrow> retries s1 = retries s + 1"
    and "isl r \<Longrightarrow> r = Inl (if retries s + 1 \<le> num_proxies s
                               then WebDriverException ''IP leak detected''
                               else PyException ''All proxies are down'')"
    and "\<not> isl r \<Longrightarrow> retries s1 = retries s"
proof -
  obtain d1 t where o: "observe_proxy_ip env d s = (d1, t)"
    by (cases "observe_proxy_ip env d s")
  note k = observe_proxy_ip_keeps [OF o]
  show "num_proxies s1 = num_proxies s" and "real_ip s1 = real_ip s"
    and "isl r \<longleftrightarrow> current_proxy_ip s1 = real_ip s"
    and "isl r \<Longrightarrow> retries s1 = retries s + 1"
    and "isl r \<Longrightarrow> r = Inl (if retries s + 1 \<le> num_proxies s
                               then WebDriverException ''IP leak detected''
                               else PyException ''All proxies are down'')"
    and "\<not> isl r \<Longrightarrow> retries s1 = retries s"
    using assms k by (auto simp add: check_proxy_ip_def o Let_def split: if_splits)
qed

lemma check_n_from:
  assumes "check_n env d n s = (rs, s1)" and "\<forall>r \<in> set rs. isl r"
  shows "retries s1 = retries s + int n \<and> num_proxies s1 = num_proxies s \<and> length rs = n \<and>
         (\<forall>N < n. rs ! N = Inl (if retries s + int N + 1 \<le> num_proxies s
                                 then WebDriverException ''IP leak detected''
                                 else PyException ''All proxies are down''))"
  using assms
proof (induction n arbitrary: s rs s1)
  case 0
  then show ?case by simp
next
  case (Suc n)
  obtain r t where c: "check_proxy_ip env d s = (r, t)"
    by (cases "check_proxy_ip env d s")
  obtain rs' t' where n: "check_n env d n t = (rs', t')"
    by (cases "check_n env d n t")
  have rs: "rs = r # rs'" and s1: "s1 = t'"
    using Suc.prems(1) by (simp_all add: c n)
  have isl: "isl r" and rest: "\<forall>x \<in> set rs'. isl x"
    using Suc.prems(2) rs by simp_all
  note st = check_proxy_ip_step [OF c]
  note ih = Suc.IH [OF n rest]
  have r: "r = Inl (if retries s + 1 \<le> num_proxies s
                    then WebDriverException ''IP leak detected''
                    else PyException ''All proxies are down'')"
    using st(5) isl by simp
  have t: "retries t = retries s + 1" "num_proxies t = num_proxies s"
    using st isl by simp_all
  have nth: "rs ! N = Inl (if retries s + int N + 1 \<le> num_proxies s
                           then WebDriverException ''IP leak detected''
                           else PyException ''All proxies are down'')" if "N < Suc n" for N
  proof (cases N)
    case 0
    then show ?thesis using r rs by simp
  next
    case (Suc M)
    then have "M < n" using that by simp
    then have "rs' ! M = Inl (if retries t + int M + 1 \<le> num_proxies t
                           then WebDriverException ''IP leak detected''
                           else PyException ''All proxies are down'')"
      using ih by blast
    then show ?thesis
      using Suc rs t by (simp add: add.commute add.left_commute)
  qed
  show ?case
    using ih t nth rs s1 by simp
qed

text \<open>
  Claim C5. Whenever the observed address equals the real one, \<^verbatim>\<open>_check_proxy_ip\<close>
  raises, having added one to \<open>retries\<close>. In a run of consecutive checks that all detect
  a leak, from a counter of 0 and with a pool of \<open>P\<close> proxies, the \<open>N\<close>-th check (the
  entry \<open>N - 1\<close> of the results) raises the recoverable \<open>WebDriverException\<close> when
  \<open>N \<le> P\<close> and the fatal plain exception \<^verbatim>\<open>All proxies are down\<close> from \<open>N = P + 1\<close> on.
\<close>

theorem leak_detection:
  assumes "retries s = 0"
    and "check_n env d n s = (rs, s1)"
    and "\<forall>r \<in> set rs. isl r"
  shows "retries s1 = int n
       \<and> (\<forall>N < n. rs ! N = Inl (if int N + 1 \<le> num_proxies s
                                  then WebDriverException ''IP leak detected''
                                  else PyException ''All proxies are down''))
       \<and> (\<forall>s0 d0. current_proxy_ip (snd (check_proxy_ip env d0 s0)) = real_ip s0 \<longrightarrow>
             retries (snd (check_proxy_ip env d0 s0)) = retries s0 + 1
             \<and> isl (fst (check_proxy_ip env d0 s0)))"
proof -
  have "current_proxy_ip (snd (check_proxy_ip env d0 s0)) = real_ip s0 \<longrightarrow>
             retries (snd (check_proxy_ip env d0 s0)) = retries s0 + 1
             \<and> isl (fst (check_proxy_ip env d0 s0))" for s0 d0
    using check_proxy_ip_step [of env d0 s0 "fst (check_proxy_ip env d0 s0)"
        "snd (check_proxy_ip env d0 s0)"]
    by simp
  then show ?thesis
    using check_n_from [OF assms(2,3)] assms(1) by simp
qed

theorem leak_detection_witness:
  "retries (snd (check_n env_offline d_new 4 s_three)) = 4
   \<and> fst (check_n env_offline d_new 4 s_three) ! 2 = Inl (WebDriverException ''IP leak detected'')
   \<and> fst (check_n env_offline d_new 4 s_three) ! 3 = Inl (PyException ''All proxies are down'')"
proof -
  let ?c = "check_n env_offline d_new 4 s_three"
  have fresh: "retries s_three = 0" and P: "num_proxies s_three = 3"
    by (simp_all add: s_three_def init_attributes_def)
  have run: "?c = (fst ?c, snd ?c)"
    by simp
  have leaks: "\<forall>r \<in> set (fst ?c). isl r"
    by (simp add: eval_nat_numeral check_proxy_ip_def observe_proxy_ip_def ext_get_def
        env_offline_def log_def s_three_def init_attributes_def Let_def)
  from leak_detection [OF fresh run leaks]
  have "retries (snd ?c) = int 4"
    and "\<forall>N < 4. fst ?c ! N = Inl (if int N + 1 \<le> num_proxies s_three
                                  then WebDriverException ''IP leak detected''
                                  else PyException ''All proxies are down'')"
    by blast+
  then show ?thesis
    by (simp add: P)
qed

subsection \<open>What the decorator sees\<close>

text \<open>A call that returns is not retried: its value and state are the wrapper's.\<close>

lemma retry_returns_first:
  assumes "func s = (Inr v, s1)"
  shows "retry 3 d func s = (Inr (Some v), s1)"
  unfolding retry_def by (subst retry_loop.simps) (simp add: assms)

text \<open>
  Claim C1 does not hold as stated. In a world where the navigation lands on the
  interstitial, \<^verbatim>\<open>web_get\<close> returns \<^verbatim>\<open>False\<close> after one navigation and no sleep: the
  wrapper has not called the body again.
\<close>

theorem web_get_soft_block_once:
  "fst (web_get env_captcha ''https://m.uber.com/looking'' s_live) = Inr (Some False)
   \<and> trace (snd (web_get env_captcha ''https://m.uber.com/looking'' s_live))
     = [Navigate 0 ''https://m.uber.com/looking'']"
proof -
  have soft: "is_soft_block ''https://www.google.com/recaptcha/api2/anchor''"
    by (simp add: is_soft_block_def)
  have "web_get_body env_captcha ''https://m.uber.com/looking'' s_live
   = (Inr False,
      s_live\<lparr>num_calls := 1,
             current_driver := Some (Some (d_new\<lparr>drv_url := ''https://www.google.com/recaptcha/api2/anchor''\<rparr>)),
             tick := 1,
             trace := [Navigate 0 ''https://m.uber.com/looking'']\<rparr>)"
    by (simp add: web_get_body_def count_and_rotate_def web_get_try_def web_get_block_def
        navigate_current_def ext_get_def log_def load_cookies_def load_cookies_try_def
        open_rb_def soft s_live_def s_blank_def init_attributes_def env_captcha_def d_new_def
        Let_def)
  then have "web_get env_captcha ''https://m.uber.com/looking'' s_live
   = (Inr (Some False),
      s_live\<lparr>num_calls := 1,
             current_driver := Some (Some (d_new\<lparr>drv_url := ''https://www.google.com/recaptcha/api2/anchor''\<rparr>)),
             tick := 1,
             trace := [Navigate 0 ''https://m.uber.com/looking'']\<rparr>)"
    unfolding web_get_def by (rule retry_returns_first)
  then show ?thesis
    by simp
qed

text \<open>
  Claim C1, amended. When the count and the rotation raise nothing, the navigation raises
  nothing and the session is then on a URL that contains one of the two patterns of lines
  185 and 186, the \<open>WebDriverException\<close> raised in the \<^verbatim>\<open>try\<close> block is
  caught by the handler of \<^verbatim>\<open>web_get\<close> itself: the method returns \<^verbatim>\<open>False\<close> from this
  one attempt, in the state the cookie reload left, and the wrapper, seeing a return,
  neither sleeps nor calls again.
\<close>

theorem web_get_soft_block:
  assumes "count_and_rotate env s = (None, s1)"
    and "navigate_current env url s1 = (None, s2)"
    and "current_driver (load_cookies env s2) = Some (Some d)"
    and "is_soft_block (drv_url d)"
  shows "web_get env url s = (Inr (Some False), load_cookies env s2)"
proof -
  have "web_get_block env url s1
        = (Inl (WebDriverException ''Google CAPTCHA encountered''), load_cookies env s2)"
    using assms(2-4) by (simp add: web_get_block_def Let_def)
  then have "web_get_try env url s1 = (Inr False, load_cookies env s2)"
    by (simp add: web_get_try_def)
  then have "web_get_body env url s = (Inr False, load_cookies env s2)"
    using assms(1) by (simp add: web_get_body_def)
  then show ?thesis
    unfolding web_get_def by (rule retry_returns_first)
qed

theorem web_get_soft_block_witness:
  "fst (web_get env_captcha ''https://m.uber.com/looking'' s_live) = Inr (Some False)"
proof -
  let ?s1 = "s_live\<lparr>num_calls := 1\<rparr>"
  let ?d = "d_new\<lparr>drv_url := ''https://www.google.com/recaptcha/api2/anchor''\<rparr>"
  let ?s2 = "?s1\<lparr>current_driver := Some (Some ?d), tick := 1,
                  trace := [Navigate 0 ''https://m.uber.com/looking'']\<rparr>"
  have a: "count_and_rotate env_captcha s_live = (None, ?s1)"
    by (simp add: count_and_rotate_def s_live_def s_blank_def init_attributes_def Let_def)
  have b: "navigate_current env_captcha ''https://m.uber.com/looking'' ?s1 = (None, ?s2)"
    by (simp add: navigate_current_def ext_get_def log_def s_live_def s_blank_def
        init_attributes_def env_captcha_def d_new_def)
  have c: "current_driver (load_cookies env_captcha ?s2) = Some (Some ?d)"
    by (simp add: load_cookies_def load_cookies_try_def open_rb_def s_live_def s_blank_def
        init_attributes_def)
  have d: "is_soft_block (drv_url ?d)"
    by (simp add: is_soft_block_def)
  show ?thesis
    using web_get_soft_block [OF a b c d] by simp
qed

text \<open>
  The handler inside \<^verbatim>\<open>_get_real_ip\<close> (lines 61 to 63) turns a \<open>RequestException\<close>
  into the returned string \<^verbatim>\<open>"Unknown"\<close>, so the decorator sees a return: whenever the
  next request fails so, the method returns \<^verbatim>\<open>"Unknown"\<close> after that one request.
\<close>

lemma get_real_ip_unknown:
  assumes "requests_get env (tick s) = Inl e" and "is_RequestException e"
  shows "get_real_ip env s = (Inr (Some ''Unknown''), log (HttpGet ''http://api64.ipify.org'') s)"
proof -
  have "get_real_ip_body env s = (Inr ''Unknown'', log (HttpGet ''http://api64.ipify.org'') s)"
    using assms by (simp add: get_real_ip_body_def ext_requests_get_def)
  then show ?thesis
    unfolding get_real_ip_def by (rule retry_returns_first)
qed

text \<open>
  Claim C2, at the input where the code departs from it. The claim has the request tried
  up to three times, a second apart, and \<^verbatim>\<open>"Unknown"\<close> returned only after the third
  failure. In a world where every request fails with a \<open>RequestException\<close>,
  \<^verbatim>\<open>_get_real_ip\<close> returns \<^verbatim>\<open>"Unknown"\<close> after a single request and no sleep: the
  decorator of line 55 never retries a network failure.
\<close>

theorem get_real_ip_first_failure:
  "fst (get_real_ip env_offline s_blank) = Inr (Some ''Unknown'')
   \<and> trace (snd (get_real_ip env_offline s_blank)) = [HttpGet ''http://api64.ipify.org'']"
proof -
  have "requests_get env_offline (tick s_blank) = Inl RequestException"
    by (simp add: env_offline_def)
  then have "get_real_ip env_offline s_blank
             = (Inr (Some ''Unknown''), log (HttpGet ''http://api64.ipify.org'') s_blank)"
    by (rule get_real_ip_unknown) simp
  then show ?thesis
    by (simp add: log_def s_blank_def init_attributes_def)
qed

subsection \<open>Attributes that the sessions and the cookies leave alone\<close>

lemma attributes_kept_refl [simp]: "attributes_kept s s"
  by (simp add: attributes_kept_def leak_count_kept_def)

lemma attributes_kept_trans:
  "attributes_kept s t \<Longrightarrow> attributes_kept t u \<Longrightarrow> attributes_kept s u"
  by (simp add: attributes_kept_def leak_count_kept_def)

lemma attributes_kept_log [simp]: "attributes_kept s (log ev t) = attributes_kept s t"
  by (simp add: attributes_kept_def leak_count_kept_def log_def)

lemma attributes_kept_sleep: "attributes_kept s (snd (time_sleep d s))"
  by (simp add: time_sleep_def attributes_kept_def leak_count_kept_def)

text \<open>
  What every call of the operation keeps, and a sleep keeps, the decorated operation
  keeps.
\<close>

lemma retry_loop_rel:
  assumes "\<And>t. R t (snd (func t))"
    and refl: "\<And>t. R t t"
    and trans: "\<And>a b c. R a b \<Longrightarrow> R b c \<Longrightarrow> R a c"
    and sleep: "\<And>t d. R t (snd (time_sleep d t))"
  shows "R s (snd (retry_loop m d func a s))"
  using assms(1)
proof (induction m d func a s rule: retry_loop.induct)
  case (1 m d f a s)
  note fk = "1.prems"
  show ?case
  proof (cases "a < m")
    case False
    then show ?thesis by (subst retry_loop.simps) (simp add: refl)
  next
    case True
    obtain r s1 where f: "f s = (r, s1)"
      by (cases "f s")
    have k1: "R s s1"
      using fk [of s] f by simp
    show ?thesis
    proof (cases r)
      case (Inr v)
      then show ?thesis
        using True f k1 by (subst retry_loop.simps) simp
    next
      case (Inl e)
      show ?thesis
      proof (cases "a + 1 = m")
        case last: True
        then show ?thesis
          using True f Inl k1 by (subst retry_loop.simps) simp
      next
        case more: False
        obtain x s2 where ts: "time_sleep d s1 = (x, s2)"
          by (cases "time_sleep d s1")
        have "R s1 s2"
          using sleep [of s1 d] ts by simp
        with k1 have k2: "R s s2"
          by (rule trans)
        show ?thesis
        proof (cases x)
          case (Some e2)
          then show ?thesis
            using True f Inl more ts k2 by (subst retry_loop.simps) simp
        next
          case None
          have "R s2 (snd (retry_loop m d f (a + 1) s2))"
            using "1.IH" True f Inl more ts None fk by auto
          with k2 have "R s (snd (retry_loop m d f (a + 1) s2))"
            by (rule trans)
          then show ?thesis
            using True f Inl more ts None by (subst retry_loop.simps) simp
        qed
      qed
    qed
  qed
qed

lemma retry_kept:
  assumes "\<And>t. attributes_kept t (snd (func t))"
  shows "attributes_kept s (snd (retry m d func s))"
  unfolding retry_def
  by (rule retry_loop_rel [where R = attributes_kept])
    (auto intro: assms attributes_kept_trans attributes_kept_sleep)

lemma select_proxy_kept: "attributes_kept s (snd (select_proxy s))"
  by (auto simp add: select_proxy_def attributes_kept_def leak_count_kept_def split: sum.splits)

lemma configure_proxy_kept: "attributes_kept s (snd (configure_proxy opts s))"
  using select_proxy_kept [of s]
  by (auto simp add: configure_proxy_def split: prod.splits sum.splits)

lemma check_proxy_ip_kept: "attributes_kept s (snd (check_proxy_ip env d s))"
  by (auto simp add: check_proxy_ip_def observe_proxy_ip_def ext_get_def ext_find_text_def
      log_def attributes_kept_def leak_count_kept_def Let_def
      split: sum.splits prod.splits)

lemma quit_current_kept: "attributes_kept s (snd (quit_current env s))"
  by (auto simp add: quit_current_def ext_quit_def split: option.splits)

lemma ext_launch_kept: "attributes_kept s (snd (ext_launch env opts wire s))"
  by (simp add: ext_launch_def)

lemma get_driver_body_kept: "attributes_kept s (snd (get_driver_body env s))"
proof -
  obtain q s1 where q: "quit_current env s = (q, s1)"
    by (cases "quit_current env s")
  have k1: "attributes_kept s s1"
    using quit_current_kept [of s env] q by simp
  show ?thesis
  proof (cases q)
    case (Some e)
    then show ?thesis using q k1 by (simp add: get_driver_body_def)
  next
    case None
    let ?c = "if num_proxies s1 > 0
              then configure_proxy (create_chrome_options (headless s1)) s1
              else (Inr (None, create_chrome_options (headless s1)), s1)"
    obtain c s2 where c: "?c = (c, s2)"
      by (cases ?c)
    have k2: "attributes_kept s s2"
      using c k1 configure_proxy_kept [of s1 "create_chrome_options (headless s1)"]
      by (auto split: if_splits intro: attributes_kept_trans)
    show ?thesis
    proof (cases c)
      case (Inl e)
      then show ?thesis using q None c k2 by (simp add: get_driver_body_def)
    next
      case (Inr wo)
      obtain wire opts where wo: "wo = (wire, opts)"
        by (cases wo)
      obtain l s3 where l: "ext_launch env opts wire s2 = (l, s3)"
        by (cases "ext_launch env opts wire s2")
      have k3: "attributes_kept s s3"
        using ext_launch_kept [of s2 env opts wire] l k2 by (auto intro: attributes_kept_trans)
      show ?thesis
      proof (cases l)
        case (Inl e)
        then show ?thesis using q None c Inr wo l k3 by (simp add: get_driver_body_def)
      next
        case r: (Inr d)
        have "attributes_kept s (snd (check_proxy_ip env d s3))"
          using check_proxy_ip_kept [of s3 env d] k3 by (rule attributes_kept_trans [rotated])
        then show ?thesis
          using q None c Inr wo l r k3 by (simp add: get_driver_body_def)
      qed
    qed
  qed
qed

lemma get_driver_kept: "attributes_kept s (snd (get_driver env s))"
  unfolding get_driver_def by (rule retry_kept) (rule get_driver_body_kept)

lemma replace_driver_kept: "attributes_kept s (snd (replace_driver env s))"
  using get_driver_kept [of s env]
  by (auto simp add: replace_driver_def attributes_kept_def leak_count_kept_def split: prod.splits sum.splits)

lemma get_real_ip_kept: "attributes_kept s (snd (get_real_ip env s))"
  unfolding get_real_ip_def
  by (rule retry_kept)
    (auto simp add: get_real_ip_body_def ext_requests_get_def split: sum.splits)

lemma save_cookies_kept: "attributes_kept s (snd (save_cookies env s))"
  by (auto simp add: save_cookies_def ext_get_cookies_def attributes_kept_def leak_count_kept_def log_def
      split: sum.splits option.splits prod.splits)

lemma add_cookies_kept: "attributes_kept s (snd (add_cookies env cs s))"
proof (induction cs arbitrary: s)
  case Nil
  then show ?case by simp
next
  case (Cons c cs)
  show ?case
  proof (cases "current_driver s")
    case None
    then show ?thesis by simp
  next
    case (Some od)
    show ?thesis
    proof (cases od)
      case None
      then show ?thesis using Some by simp
    next
      case d: (Some d)
      let ?s1 = "log (AddCookie (drv_id d) (strip_expiry c)) s"
      have "attributes_kept ?s1 (snd (add_cookies env cs ?s1))"
        by (rule Cons.IH)
      then have "attributes_kept s (snd (add_cookies env cs ?s1))"
        by (simp add: attributes_kept_def leak_count_kept_def log_def)
      then show ?thesis
        using Some d by (cases "add_cookie env (tick s) (strip_expiry c)")
          (simp_all add: ext_add_cookie_def)
    qed
  qed
qed

lemma refresh_current_kept: "attributes_kept s (snd (refresh_current env s))"
  by (auto simp add: refresh_current_def ext_refresh_def attributes_kept_def leak_count_kept_def log_def
      split: option.splits sum.splits)

lemma load_cookies_kept: "attributes_kept s (load_cookies env s)"
proof -
  have "attributes_kept s (snd (load_cookies_try env s))"
  proof (cases "open_rb (cookies_path s) (fs s)")
    case (Inl e)
    then show ?thesis by (simp add: load_cookies_try_def)
  next
    case (Inr content)
    show ?thesis
    proof (cases "pickle_load content")
      case (Inl e)
      then show ?thesis using Inr by (simp add: load_cookies_try_def)
    next
      case r: (Inr cookies)
      obtain x s1 where a: "add_cookies env cookies s = (x, s1)"
        by (cases "add_cookies env cookies s")
      have k1: "attributes_kept s s1"
        using add_cookies_kept [of s env cookies] a by simp
      have "attributes_kept s (snd (refresh_current env s1))"
        using refresh_current_kept [of s1 env] k1 by (rule attributes_kept_trans [rotated])
      then show ?thesis
        using Inr r a k1 by (cases x) (simp_all add: load_cookies_try_def)
    qed
  qed
  then show ?thesis by (simp add: load_cookies_def)
qed

lemma navigate_current_kept: "attributes_kept s (snd (navigate_current env url s))"
  by (auto simp add: navigate_current_def ext_get_def attributes_kept_def leak_count_kept_def log_def
      split: option.splits sum.splits)

lemma web_get_try_kept: "attributes_kept s (snd (web_get_try env url s))"
proof -
  obtain x s1 where n: "navigate_current env url s = (x, s1)"
    by (cases "navigate_current env url s")
  have k1: "attributes_kept s s1"
    using navigate_current_kept [of s env url] n by simp
  have k2: "attributes_kept s (load_cookies env s1)"
    using load_cookies_kept [of s1 env] k1 by (rule attributes_kept_trans [rotated])
  have "attributes_kept s (snd (web_get_block env url s))"
    using n k1 k2
    by (cases x) (auto simp add: web_get_block_def Let_def split: option.splits)
  then show ?thesis
    by (auto simp add: web_get_try_def split: prod.splits sum.splits)
qed

subsection \<open>Rotation by call count\<close>

lemma session_events_append:
  "session_events (xs @ ys) = session_events xs @ session_events ys"
  by (induction xs rule: session_events.induct) auto

lemma add_cookies_session:
  "session_events (trace (snd (add_cookies env cs s))) = session_events (trace s)"
proof (induction cs arbitrary: s)
  case Nil
  then show ?case by simp
next
  case (Cons c cs)
  show ?case
  proof (cases "current_driver s")
    case None
    then show ?thesis by simp
  next
    case (Some od)
    show ?thesis
    proof (cases od)
      case None
      then show ?thesis using Some by simp
    next
      case (Some d)
      let ?c1 = "strip_expiry c"
      let ?s1 = "log (AddCookie (drv_id d) ?c1) s"
      have s1: "session_events (trace ?s1) = session_events (trace s)"
        by (simp add: log_def session_events_append)
      show ?thesis
      proof (cases "add_cookie env (tick s) ?c1")
        case None
        then show ?thesis
          using \<open>current_driver s = Some od\<close> Some Cons.IH [of ?s1] s1
          by (simp add: ext_add_cookie_def Let_def)
      next
        case (Some e)
        then show ?thesis
          using \<open>current_driver s = Some od\<close> \<open>od = Some d\<close> s1
          by (simp add: ext_add_cookie_def Let_def)
      qed
    qed
  qed
qed

lemma refresh_current_session:
  "session_events (trace (snd (refresh_current env s))) = session_events (trace s)"
  by (auto simp add: refresh_current_def ext_refresh_def log_def session_events_append
      split: option.splits sum.splits)

lemma load_cookies_session:
  "session_events (trace (load_cookies env s)) = session_events (trace s)"
proof -
  have "session_events (trace (snd (load_cookies_try env s))) = session_events (trace s)"
  proof (cases "open_rb (cookies_path s) (fs s)")
    case (Inl e)
    then show ?thesis by (simp add: load_cookies_try_def)
  next
    case (Inr content)
    show ?thesis
    proof (cases "pickle_load content")
      case (Inl e)
      then show ?thesis using Inr by (simp add: load_cookies_try_def)
    next
      case r: (Inr cookies)
      obtain x s1 where a: "add_cookies env cookies s = (x, s1)"
        by (cases "add_cookies env cookies s")
      have s1: "session_events (trace s1) = session_events (trace s)"
        using add_cookies_session [of env cookies s] a by simp
      show ?thesis
        using Inr r a s1 refresh_current_session [of env s1]
        by (cases x) (simp_all add: load_cookies_try_def)
    qed
  qed
  then show ?thesis by (simp add: load_cookies_def)
qed

lemma navigate_current_session:
  "session_events (trace (snd (navigate_current env url s))) = session_events (trace s)"
  by (auto simp add: navigate_current_def ext_get_def log_def session_events_append
      split: option.splits sum.splits)

lemma web_get_try_session:
  "session_events (trace (snd (web_get_try env url s))) = session_events (trace s)"
proof -
  obtain x s1 where n: "navigate_current env url s = (x, s1)"
    by (cases "navigate_current env url s")
  have s1: "session_events (trace s1) = session_events (trace s)"
    using navigate_current_session [of env url s] n by simp
  have "session_events (trace (snd (web_get_block env url s))) = session_events (trace s)"
    using n s1 load_cookies_session [of env s1]
    by (cases x) (auto simp add: web_get_block_def Let_def split: option.splits)
  then show ?thesis
    by (auto simp add: web_get_try_def split: prod.splits sum.splits)
qed

lemma web_get_body_counts:
  "num_calls (snd (web_get_body env url s)) = num_calls s + 1"
proof -
  let ?s1 = "s\<lparr>num_calls := num_calls s + 1\<rparr>"
  obtain x s2 where c: "count_and_rotate env s = (x, s2)"
    by (cases "count_and_rotate env s")
  have "num_calls (snd (replace_driver env ?s1)) = num_calls ?s1"
    using replace_driver_kept [of ?s1 env] by (simp add: attributes_kept_def)
  then have n2: "num_calls s2 = num_calls s + 1"
    using c by (auto simp add: count_and_rotate_def Let_def split: if_splits)
  have "num_calls (snd (web_get_try env url s2)) = num_calls s2"
    using web_get_try_kept [of s2 env url] by (simp add: attributes_kept_def)
  then show ?thesis
    using c n2 by (cases x) (simp_all add: web_get_body_def)
qed

text \<open>
  One run of the body of \<^verbatim>\<open>web_get\<close> counts itself and decides on the count it reached:
  with a threshold other than 0, the session is replaced before the navigation when that
  count is a multiple of the threshold, and otherwise the run neither ends nor starts a
  session.
\<close>

lemma web_get_body_rotation:
  assumes "proxy_rotation_threshold s \<noteq> 0" and "0 \<le> num_calls s"
  shows "(0 < num_calls s + 1 \<and> proxy_rotation_threshold s dvd num_calls s + 1 \<longrightarrow>
            web_get_body env url s =
              (case replace_driver env (s\<lparr>num_calls := num_calls s + 1\<rparr>) of
                 (Some e, s2) \<Rightarrow> (Inl e, s2)
               | (None, s2) \<Rightarrow> web_get_try env url s2))
       \<and> (\<not> (0 < num_calls s + 1 \<and> proxy_rotation_threshold s dvd num_calls s + 1) \<longrightarrow>
            web_get_body env url s = web_get_try env url (s\<lparr>num_calls := num_calls s + 1\<rparr>)
            \<and> session_events (trace (snd (web_get_body env url s))) = session_events (trace s))
       \<and> num_calls (snd (web_get_body env url s)) = num_calls s + 1"
proof -
  let ?s1 = "s\<lparr>num_calls := num_calls s + 1\<rparr>"
  have pos: "0 < num_calls s + 1"
    using assms(2) by simp
  have m: "(num_calls s + 1) mod proxy_rotation_threshold s = 0
           \<longleftrightarrow> proxy_rotation_threshold s dvd num_calls s + 1"
    by (rule mod_eq_0_iff_dvd)
  have yes: "web_get_body env url s =
              (case replace_driver env ?s1 of
                 (Some e, s2) \<Rightarrow> (Inl e, s2)
               | (None, s2) \<Rightarrow> web_get_try env url s2)"
    if "proxy_rotation_threshold s dvd num_calls s + 1"
    using that assms(1) m by (simp add: web_get_body_def count_and_rotate_def Let_def)
  have no: "web_get_body env url s = web_get_try env url ?s1"
    if "\<not> proxy_rotation_threshold s dvd num_calls s + 1"
    using that assms(1) m by (simp add: web_get_body_def count_and_rotate_def Let_def)
  have quiet: "session_events (trace (snd (web_get_body env url s))) = session_events (trace s)"
    if "\<not> proxy_rotation_threshold s dvd num_calls s + 1"
    using no [OF that] web_get_try_session [of env url ?s1] by simp
  show ?thesis
    using pos yes no quiet web_get_body_counts [of env url s] by blast
qed


lemma retry_raises_first:
  assumes "func s = (Inl e, s1)"
  shows "retry 3 1 func s = retry_loop 3 1 func 1 (s1\<lparr>trace := trace s1 @ [Sleep 1]\<rparr>)"
  unfolding retry_def by (subst retry_loop.simps) (simp add: assms time_sleep_def)

lemma retry_returns_second:
  assumes "func s = (Inr v, s1)"
  shows "retry_loop 3 d func 1 s = (Inr (Some v), s1)"
  by (subst retry_loop.simps) (simp add: assms)

lemma not_soft: "\<not> is_soft_block ''https://m.uber.com/looking''"
  by (simp add: is_soft_block_def)

text \<open>
  Claim C8, at an input where the code departs from it. The counter of line 175 is
  advanced by every run of the body, also by the runs the decorator makes again after an
  exception, so it runs ahead of the number of calls. With a threshold of 2 and a world
  whose first page load fails with an error that is not selenium's: the first call of
  \<^verbatim>\<open>web_get\<close>, whose index 1 is no multiple of 2, ends session 0 and starts session 2 on
  its second run, and the second call, whose index 2 is a positive multiple of 2, navigates
  with no replacement at all.
\<close>

theorem web_get_rotation_drift:
  "fst (web_get env_glitch ''https://m.uber.com/looking'' s_two) = Inr (Some True)
   \<and> trace (snd (web_get env_glitch ''https://m.uber.com/looking'' s_two))
     = [Navigate 0 ''https://m.uber.com/looking'', Sleep 1, Quit 0, Launch 2,
        Navigate 2 ''https://m.uber.com/looking'']
   \<and> trace (run_calls env_glitch
               [CallWebGet ''https://m.uber.com/looking'', CallWebGet ''https://m.uber.com/looking'']
               s_two)
     = [Navigate 0 ''https://m.uber.com/looking'', Sleep 1, Quit 0, Launch 2,
        Navigate 2 ''https://m.uber.com/looking'', Navigate 2 ''https://m.uber.com/looking'']"
proof -
  let ?u = "''https://m.uber.com/looking''"
  let ?a1 = "s_two\<lparr>num_calls := 1, tick := 1, trace := [Navigate 0 ?u]\<rparr>"
  let ?b1 = "s_two\<lparr>num_calls := 1, tick := 1, trace := [Navigate 0 ?u, Sleep 1]\<rparr>"
  let ?c1 = "s_two\<lparr>num_calls := 2, current_driver := Some (Some d_two), tick := 4,
                   trace := [Navigate 0 ?u, Sleep 1, Quit 0, Launch 2, Navigate 2 ?u]\<rparr>"
  let ?c2 = "s_two\<lparr>num_calls := 3, current_driver := Some (Some d_two), tick := 5,
                   trace := [Navigate 0 ?u, Sleep 1, Quit 0, Launch 2, Navigate 2 ?u,
                             Navigate 2 ?u]\<rparr>"
  have first: "web_get_body env_glitch ?u s_two = (Inl (OtherError ''ConnectionResetError''), ?a1)"
    by (simp add: web_get_body_def count_and_rotate_def web_get_try_def web_get_block_def
        navigate_current_def ext_get_def log_def s_two_def s_live_def s_blank_def
        init_attributes_def env_glitch_def d_new_def Let_def)
  have slept: "?a1\<lparr>trace := trace ?a1 @ [Sleep 1]\<rparr> = ?b1"
    by simp
  have driver: "get_driver_body env_glitch (?b1\<lparr>num_calls := 2\<rparr>)
                = (Inr (d_two\<lparr>drv_url := ''data:,''\<rparr>),
                   ?b1\<lparr>num_calls := 2, tick := 3,
                        trace := [Navigate 0 ?u, Sleep 1, Quit 0, Launch 2]\<rparr>)"
    by (simp add: get_driver_body_def quit_current_def ext_quit_def ext_launch_def log_def
        s_two_def s_live_def s_blank_def init_attributes_def env_glitch_def d_new_def d_two_def)
  let ?b2 = "?b1\<lparr>num_calls := 2\<rparr>"
  let ?b3 = "?b1\<lparr>num_calls := 2, tick := 3,
                  trace := [Navigate 0 ?u, Sleep 1, Quit 0, Launch 2]\<rparr>"
  let ?b4 = "?b3\<lparr>current_driver := Some (Some (d_two\<lparr>drv_url := ''data:,''\<rparr>))\<rparr>"
  have "get_driver env_glitch ?b2 = (Inr (Some (d_two\<lparr>drv_url := ''data:,''\<rparr>)), ?b3)"
    unfolding get_driver_def
    by (rule retry_returns_first [where func = "get_driver_body env_glitch", OF driver])
  then have replaced: "replace_driver env_glitch ?b2 = (None, ?b4)"
    by (simp only: replace_driver_def prod.case sum.case)
  have counted: "count_and_rotate env_glitch ?b1 = replace_driver env_glitch ?b2"
    by (simp add: count_and_rotate_def Let_def s_two_def s_live_def s_blank_def
        init_attributes_def)
  have navigated: "web_get_try env_glitch ?u ?b4 = (Inr True, ?c1)"
    by (simp add: web_get_try_def web_get_block_def navigate_current_def ext_get_def log_def
        load_cookies_def load_cookies_try_def open_rb_def not_soft s_two_def s_live_def
        s_blank_def init_attributes_def env_glitch_def d_two_def Let_def)
  have second: "web_get_body env_glitch ?u ?b1 = (Inr True, ?c1)"
    by (simp only: web_get_body_def counted replaced prod.case option.case navigated)
  have call1: "web_get env_glitch ?u s_two = (Inr (Some True), ?c1)"
    unfolding web_get_def
    by (simp only: retry_raises_first [where func = "web_get_body env_glitch ?u", OF first] slept
        retry_returns_second [where func = "web_get_body env_glitch ?u", OF second])
  have third: "web_get_body env_glitch ?u ?c1 = (Inr True, ?c2)"
    by (simp add: web_get_body_def count_and_rotate_def web_get_try_def
        web_get_block_def navigate_current_def ext_get_def log_def load_cookies_def
        load_cookies_try_def open_rb_def not_soft s_two_def s_live_def s_blank_def
        init_attributes_def env_glitch_def d_two_def Let_def)
  have call2: "web_get env_glitch ?u ?c1 = (Inr (Some True), ?c2)"
    unfolding web_get_def by (rule retry_returns_first [where func = "web_get_body env_glitch ?u", OF third])
  show ?thesis
    by (simp add: call1 call2)
qed

subsection \<open>Cookies saved and loaded\<close>

lemma added_cookies_append:
  "added_cookies (xs @ ys) = added_cookies xs @ added_cookies ys"
  by (induction xs rule: added_cookies.induct) auto

lemma add_cookies_accepted:
  assumes "\<forall>t c. add_cookie env t c = None" and "current_driver s = Some (Some d)"
  shows "fst (add_cookies env cs s) = None
       \<and> current_driver (snd (add_cookies env cs s)) = Some (Some d)
       \<and> added_cookies (trace (snd (add_cookies env cs s)))
         = added_cookies (trace s) @ map strip_expiry cs"
  using assms(2)
proof (induction cs arbitrary: s)
  case Nil
  then show ?case by simp
next
  case (Cons c cs)
  let ?s1 = "log (AddCookie (drv_id d) (strip_expiry c)) s"
  have drv: "current_driver ?s1 = Some (Some d)"
    using Cons.prems by (simp add: log_def)
  have tr: "added_cookies (trace ?s1) = added_cookies (trace s) @ [strip_expiry c]"
    by (simp add: log_def added_cookies_append)
  have step: "add_cookies env (c # cs) s = add_cookies env cs ?s1"
    using Cons.prems assms(1) by (simp add: ext_add_cookie_def)
  show ?case
    using Cons.IH [OF drv] tr by (simp only: step) simp
qed

lemma save_cookies_written:
  assumes "save_cookies env s = (None, s1)" and "get_cookies env (tick s) = Inr cookies"
  shows "files (fs s1) (cookies_path s1) = Some (Some cookies)"
    and "cookies_path s1 = cookies_path s"
  using assms
  by (auto simp add: save_cookies_def ext_get_cookies_def log_def
      split: sum.splits option.splits prod.splits)

lemma strip_expiry_entries:
  "strip_expiry c ''expiry'' = None" and "k \<noteq> ''expiry'' \<Longrightarrow> strip_expiry c k = c k"
  by (simp_all add: strip_expiry_def)

text \<open>
  Claim C9. Let \<^verbatim>\<open>save_cookies\<close> return without an exception while the session holds
  the cookies \<open>cookies\<close>, and let \<^verbatim>\<open>load_cookies\<close> run later, on the file system and the
  path the save left, with a session that accepts every cookie. Then the cookies handed to
  the session by the load are the saved ones, one for one and in their order, each without
  its \<^verbatim>\<open>expiry\<close> entry and otherwise unchanged.
\<close>

theorem cookie_round_trip:
  assumes "save_cookies env s = (None, s1)"
    and "get_cookies env (tick s) = Inr cookies"
    and "fs s2 = fs s1" and "cookies_path s2 = cookies_path s1"
    and "current_driver s2 = Some (Some d)"
    and "\<forall>t c. add_cookie env2 t c = None"
  shows "added_cookies (trace (load_cookies env2 s2))
         = added_cookies (trace s2) @ map strip_expiry cookies
       \<and> (\<forall>c k. strip_expiry c k = (if k = ''expiry'' then None else c k))"
proof -
  note w = save_cookies_written [OF assms(1,2)]
  have o: "open_rb (cookies_path s2) (fs s2) = Inr (Some cookies)"
    using w assms(3,4) by (simp add: open_rb_def)
  note a = add_cookies_accepted [OF assms(6,5), of cookies]
  obtain t where t: "add_cookies env2 cookies s2 = (None, t)"
    using a by (cases "add_cookies env2 cookies s2") auto
  have tr: "added_cookies (trace t) = added_cookies (trace s2) @ map strip_expiry cookies"
    using a t by simp
  have r: "added_cookies (trace (snd (refresh_current env2 t))) = added_cookies (trace t)"
    by (auto simp add: refresh_current_def ext_refresh_def log_def added_cookies_append
        split: option.splits sum.splits)
  have "load_cookies env2 s2 = snd (refresh_current env2 t)"
    by (simp add: load_cookies_def load_cookies_try_def o pickle_load_def t)
  then show ?thesis
    using r tr by (simp add: strip_expiry_def)
qed

theorem cookie_round_trip_witness:
  "fst (save_cookies env_cookies s_data) = None
   \<and> added_cookies (trace (load_cookies env_cookies (snd (save_cookies env_cookies s_data))))
     = [strip_expiry cookie_sid, strip_expiry cookie_lang]
   \<and> strip_expiry cookie_sid = [''name'' \<mapsto> CStr ''sid'', ''value'' \<mapsto> CStr ''abc'']"
proof -
  let ?s1 = "snd (save_cookies env_cookies s_data)"
  have dn: "os_path_dirname ''data/cookies.pkl'' = ''data''"
    by (simp add: os_path_dirname_def)
  have anc: "ancestor_dirs ''data'' = []"
    by (simp add: ancestor_dirs_def upt_rec)
  have sv: "save_cookies env_cookies s_data
            = (None, s_data\<lparr>tick := 1, trace := [GetCookies 0],
                 fs := \<lparr>dirs = {''data''},
                        files = [''data/cookies.pkl'' \<mapsto> Some [cookie_sid, cookie_lang]]\<rparr>\<rparr>)"
    by (simp add: save_cookies_def dn anc os_makedirs_def open_wb_def dir_exists_def
        ext_get_cookies_def log_def s_data_def s_live_def s_blank_def init_attributes_def
        env_cookies_def d_new_def)
  have gc: "get_cookies env_cookies (tick s_data) = Inr [cookie_sid, cookie_lang]"
    by (simp add: env_cookies_def)
  have drv: "current_driver ?s1 = Some (Some d_new)"
    unfolding sv by (simp add: s_data_def s_live_def)
  have acc: "\<forall>t c. add_cookie env_cookies t c = None"
    by (simp add: env_cookies_def)
  have sv': "save_cookies env_cookies s_data = (None, ?s1)"
    unfolding sv by simp
  have tr: "added_cookies (trace ?s1) = []"
    unfolding sv by simp
  have saved: "fst (save_cookies env_cookies s_data) = None"
    unfolding sv by simp
  have "added_cookies (trace (load_cookies env_cookies ?s1))
        = added_cookies (trace ?s1) @ map strip_expiry [cookie_sid, cookie_lang]"
    using cookie_round_trip [OF sv' gc refl refl drv acc] by blast
  then have loaded: "added_cookies (trace (load_cookies env_cookies ?s1))
        = [strip_expiry cookie_sid, strip_expiry cookie_lang]"
    unfolding tr by simp
  have stripped: "strip_expiry cookie_sid = [''name'' \<mapsto> CStr ''sid'', ''value'' \<mapsto> CStr ''abc'']"
    by (simp add: strip_expiry_def cookie_sid_def)
  show ?thesis
    using saved loaded stripped by blast
qed

subsection \<open>The leak counter over the life of the object\<close>

lemma leak_count_kept_refl [simp]: "leak_count_kept s s"
  by (simp add: leak_count_kept_def)

lemma leak_count_kept_trans:
  "leak_count_kept s t \<Longrightarrow> leak_count_kept t u \<Longrightarrow> leak_count_kept s u"
  by (simp add: leak_count_kept_def)

lemma leak_count_kept_sleep: "leak_count_kept s (snd (time_sleep d s))"
  by (simp add: time_sleep_def leak_count_kept_def)

lemma attributes_kept_leak: "attributes_kept s t \<Longrightarrow> leak_count_kept s t"
  by (simp add: attributes_kept_def)

lemma count_and_rotate_kept: "leak_count_kept s (snd (count_and_rotate env s))"
proof -
  let ?s1 = "s\<lparr>num_calls := num_calls s + 1\<rparr>"
  have a: "leak_count_kept s ?s1"
    by (simp add: leak_count_kept_def)
  have "leak_count_kept ?s1 (snd (replace_driver env ?s1))"
    using replace_driver_kept [of ?s1 env] by (rule attributes_kept_leak)
  with a have "leak_count_kept s (snd (replace_driver env ?s1))"
    by (rule leak_count_kept_trans)
  then show ?thesis
    using a by (simp add: count_and_rotate_def Let_def)
qed

lemma web_get_body_kept: "leak_count_kept s (snd (web_get_body env url s))"
proof -
  obtain x s1 where c: "count_and_rotate env s = (x, s1)"
    by (cases "count_and_rotate env s")
  have k1: "leak_count_kept s s1"
    using count_and_rotate_kept [of s env] c by simp
  have "leak_count_kept s1 (snd (web_get_try env url s1))"
    using web_get_try_kept [of s1 env url] by (rule attributes_kept_leak)
  with k1 have "leak_count_kept s (snd (web_get_try env url s1))"
    by (rule leak_count_kept_trans)
  then show ?thesis
    using c k1 by (cases x) (simp_all add: web_get_body_def)
qed

lemma web_get_kept: "leak_count_kept s (snd (web_get env url s))"
  unfolding web_get_def retry_def
  by (rule retry_loop_rel [where R = leak_count_kept])
    (auto intro: web_get_body_kept leak_count_kept_trans leak_count_kept_sleep)

lemma run_call_kept: "leak_count_kept s (run_call env c s)"
  by (cases c)
    (simp_all add: web_get_kept attributes_kept_leak get_driver_kept replace_driver_kept
      save_cookies_kept load_cookies_kept get_real_ip_kept)

lemma run_calls_kept: "leak_count_kept s (run_calls env cs s)"
proof (induction cs arbitrary: s)
  case Nil
  then show ?case by simp
next
  case (Cons c cs)
  have "leak_count_kept (run_call env c s) (run_calls env cs (run_call env c s))"
    by (rule Cons.IH)
  with run_call_kept [of s env c] show ?case
    by (auto intro: leak_count_kept_trans)
qed

text \<open>
  Claim C10. \<^verbatim>\<open>__init__\<close> sets \<open>retries\<close> to 0 before the first session is created, and
  no method ever lowers it or changes the size of the pool: after any run of calls, in any
  world, the counter is at least what it was. So once it exceeds the size of the pool,
  every later check that detects a leak raises the fatal \<^verbatim>\<open>All proxies are down\<close>, never
  the recoverable leak exception, whatever happened in between.
\<close>

theorem leak_count_cumulative:
  "retries (init_attributes proxies threshold path hl ip fsys) = 0
   \<and> retries s \<le> retries (run_calls env cs s)
   \<and> num_proxies (run_calls env cs s) = num_proxies s
   \<and> (num_proxies s < retries s \<longrightarrow>
        (\<forall>env2 d. isl (fst (check_proxy_ip env2 d (run_calls env cs s))) \<longrightarrow>
           fst (check_proxy_ip env2 d (run_calls env cs s))
           = Inl (PyException ''All proxies are down'')))"
proof -
  let ?t = "run_calls env cs s"
  have k: "retries s \<le> retries ?t" "num_proxies ?t = num_proxies s"
    using run_calls_kept [of s env cs] by (simp_all add: leak_count_kept_def)
  have fatal: "fst (check_proxy_ip env2 d ?t) = Inl (PyException ''All proxies are down'')"
    if "num_proxies s < retries s" and "isl (fst (check_proxy_ip env2 d ?t))" for env2 d
    using check_proxy_ip_step(5) [of env2 d ?t "fst (check_proxy_ip env2 d ?t)"
        "snd (check_proxy_ip env2 d ?t)"] that k
    by simp
  show ?thesis
    using k fatal by (simp add: init_attributes_def)
qed

theorem leak_count_cumulative_witness:
  "num_proxies (s_three\<lparr>retries := 4\<rparr>) < retries (s_three\<lparr>retries := 4\<rparr>)
   \<and> fst (check_proxy_ip env_offline d_new
            (run_calls env_captcha [CallWebGet ''https://m.uber.com/looking'', CallSaveCookies]
               (s_three\<lparr>retries := 4\<rparr>)))
     = Inl (PyException ''All proxies are down'')"
proof -
  let ?s = "s_three\<lparr>retries := 4\<rparr>"
  let ?t = "run_calls env_captcha [CallWebGet ''https://m.uber.com/looking'', CallSaveCookies] ?s"
  have over: "num_proxies ?s < retries ?s"
    by (simp add: s_three_def init_attributes_def)
  have det: "isl (fst (check_proxy_ip env_offline d_new ?t))"
    by (simp add: check_proxy_ip_def observe_proxy_ip_def ext_get_def env_offline_def Let_def)
  show ?thesis
    using leak_count_cumulative [of None 6 "''cookies.pkl''" True None
        "\<lparr>dirs = {}, files = Map.empty\<rparr>" ?s env_captcha
        "[CallWebGet ''https://m.uber.com/looking'', CallSaveCookies]"]
      over det
    by blast
qed

end
